theory Spec2Isabelle
  imports Complex_Main "HOL-Library.Word" "HOL-Library.Log_Nat"
begin

section \<open>Data model\<close>

text \<open>
  The engine lives in package \<open>core\<close>: \<open>project.go\<close> (the funding goal),
  \<open>pledge.go\<close> (one contributor's partial transaction) and the contract file
  (the aggregator). Amounts are Go \<open>uint64\<close> values, so they are 64-bit words here and
  every sum wraps around as it does in Go. Byte slices are lists of 8-bit words; Go
  strings are HOL strings.
\<close>

type_synonym u64 = "64 word"
type_synonym u32 = "32 word"
type_synonym bytes = "8 word list"

subsection \<open>The SDK's transaction types\<close>

text \<open>
  \<open>transaction.TransactionOutput\<close>, \<open>transaction.TransactionInput\<close>,
  \<open>transaction.Transaction\<close> and \<open>transaction.UTXO\<close> come from the ledger SDK the
  package imports. Only the fields the engine reads or writes are kept. A Go pointer
  that may be nil is an \<open>option\<close>: the unlocking script of an input is nil until the
  input is signed, and the source output of an input is known only when the input was
  made from a UTXO.
\<close>

record TransactionOutput =
  Satoshis :: u64
  LockingScript :: bytes

record TransactionInput =
  SourceTXID :: bytes
  SourceTxOutIndex :: u32
  UnlockingScript :: "bytes option"
  SequenceNumber :: u32
  SourceTxOutput :: "TransactionOutput option"

record Transaction =
  Version :: u32
  Inputs :: "TransactionInput list"
  Outputs :: "TransactionOutput list"
  LockTime :: u32

record UTXO =
  TxID :: bytes
  Vout :: u32
  UTXOLockingScript :: bytes
  UTXOSatoshis :: u64

definition NewTransaction :: Transaction where
  "NewTransaction = \<lparr>Version = 1, Inputs = [], Outputs = [], LockTime = 0\<rparr>"

definition AddOutput :: "Transaction \<Rightarrow> TransactionOutput \<Rightarrow> Transaction" where
  "AddOutput t out = t\<lparr>Outputs := Outputs t @ [out]\<rparr>"

subsection \<open>The persisted messages\<close>

text \<open>
  The two message shapes of the persistence schema (\<open>pb.Project\<close> with its
  \<open>Details\<close> and \<open>Extra\<close> submessages, \<open>pb.Pledge\<close> with its inputs), with the
  fields the package sets or reads. A submessage pointer is an \<open>option\<close>.
\<close>

record pb_Output =
  pb_Amount :: u64
  pb_Script :: bytes

record pb_ProjectDetails =
  pb_Network :: string
  pb_Outputs :: "pb_Output list"
  pb_Time :: int
  pb_Expires :: "int option"
  pb_Memo :: string

record pb_ProjectExtraDetails =
  pb_Title :: string
  pb_CoverImage :: bytes
  pb_AuthKey :: bytes
  pb_MinPledgeAmount :: u64

record pb_Project =
  pb_Version :: u32
  pb_Details :: "pb_ProjectDetails option"
  pb_Extra :: "pb_ProjectExtraDetails option"

record pb_Input =
  pb_TxHash :: bytes
  pb_OutputIndex :: u32
  pb_UnlockScript :: bytes
  pb_Sequence :: u32

record pb_ContactInfo =
  pb_Name :: string
  pb_Email :: string

record pb_Pledge =
  pb_ProjectId :: string
  pb_Inputs :: "pb_Input list"
  pb_PledgeTime :: int
  pb_PledgeMemo :: string
  pb_RefundAddress :: string
  pb_Contact :: "pb_ContactInfo option"

subsection \<open>Project, Pledge, Contract\<close>

record Project =
  project_pb :: pb_Project
  project_id :: string
  goalAmount :: u64

record Pledge =
  pledge_pb :: pb_Pledge
  pledge_id :: string
  amount :: u64
  tx :: "Transaction option"

record Contract =
  project :: Project
  pledges :: "Pledge list"
  combined :: "Transaction option"

text \<open>
  Every error return of the package is a value of this type. \<open>NilPointer\<close> stands for
  the run-time panic of a nil dereference, which the model keeps apart from the
  errors the functions return.
\<close>

datatype validate_error = NoTransaction | NoInputs | NoOutputs | NotSigned nat

datatype error =
    TitleDescriptionRequired
  | GoalAmountZero
  | InvalidAddress
  | LockingScriptFailed
  | MarshalFailed
  | UnmarshalFailed
  | NoDetails
  | BelowMinimum u64 u64
  | InsufficientFunds u64 u64
  | InvalidTxHash
  | WrongProject
  | InvalidPledge validate_error
  | DuplicateInputs
  | GoalNotReached u64 u64
  | OutputsFailed error
  | PledgeNotFound
  | NilPointer

subsection \<open>External collaborators\<close>

text \<open>
  The wire encoding of the two messages (\<open>proto.Marshal\<close>, \<open>proto.Unmarshal\<close>) and
  the hash behind the identifiers (\<open>hex.EncodeToString\<close> of \<open>sha256.Sum256\<close>) are
  libraries outside the package: they are parameters, over any type \<open>'w\<close> of wire
  data. \<open>proto.Marshal\<close> returns a buffer and an error, as the \<open>Serialize\<close> methods
  that pass its result on do; the error is \<open>None\<close> when there is none. So are the two
  address primitives \<open>NewProject\<close> calls
  (\<open>script.NewAddressFromString\<close> and \<open>p2pkh.Lock\<close>), over any type \<open>'a\<close> of
  decoded addresses. \<open>timestamppb.Now()\<close> is the argument \<open>now\<close> of the constructors.
\<close>

record 'w PersistenceFormat =
  marshalProject :: "pb_Project \<Rightarrow> 'w \<times> error option"
  unmarshalProject :: "'w \<Rightarrow> pb_Project option"
  marshalPledge :: "pb_Pledge \<Rightarrow> 'w \<times> error option"
  unmarshalPledge :: "'w \<Rightarrow> pb_Pledge option"
  sha256Hex :: "'w \<Rightarrow> string"

record 'a SigningLedger =
  NewAddressFromString :: "string \<Rightarrow> 'a option"
  p2pkhLock :: "'a \<Rightarrow> bytes option"

section \<open>Project accessors\<close>

definition Project_ID :: "Project \<Rightarrow> string" where
  "Project_ID p = project_id p"

definition Title :: "Project \<Rightarrow> string" where
  "Title p = (case pb_Extra (project_pb p) of Some x \<Rightarrow> pb_Title x | None \<Rightarrow> [])"

definition Description :: "Project \<Rightarrow> string" where
  "Description p = (case pb_Details (project_pb p) of Some d \<Rightarrow> pb_Memo d | None \<Rightarrow> [])"

definition GoalAmount :: "Project \<Rightarrow> u64" where
  "GoalAmount p = goalAmount p"

definition MinPledgeAmount :: "Project \<Rightarrow> u64" where
  "MinPledgeAmount p =
     (case pb_Extra (project_pb p) of
        Some x \<Rightarrow> if pb_MinPledgeAmount x > 0 then pb_MinPledgeAmount x else 10000
      | None \<Rightarrow> 10000)"

definition Project_Outputs :: "Project \<Rightarrow> error + TransactionOutput list" where
  "Project_Outputs p =
     (case pb_Details (project_pb p) of
        None \<Rightarrow> Inl NoDetails
      | Some d \<Rightarrow>
          Inr (map (\<lambda>out. \<lparr>Satoshis = pb_Amount out, LockingScript = pb_Script out\<rparr>)
                 (pb_Outputs d)))"

section \<open>Project construction and persistence\<close>

text \<open>
  \<open>Serialize\<close> returns what \<open>proto.Marshal\<close> returns, the error included.
  \<open>calculateID\<close> drops the error (\<open>data, _ := p.Serialize()\<close>) and hashes the buffer
  it got.
\<close>

definition Project_Serialize :: "'w PersistenceFormat \<Rightarrow> Project \<Rightarrow> 'w \<times> error option" where
  "Project_Serialize fmt p = marshalProject fmt (project_pb p)"

definition Project_calculateID :: "'w PersistenceFormat \<Rightarrow> Project \<Rightarrow> string" where
  "Project_calculateID fmt p = (case Project_Serialize fmt p of (data, err) \<Rightarrow> sha256Hex fmt data)"

definition NewProject ::
  "'w PersistenceFormat \<Rightarrow> 'a SigningLedger \<Rightarrow> int \<Rightarrow> string \<Rightarrow> string \<Rightarrow> u64 \<Rightarrow> string
   \<Rightarrow> error + Project" where
  "NewProject fmt ledger now title description goal address =
     (if title = [] \<or> description = [] then Inl TitleDescriptionRequired
      else if goal = 0 then Inl GoalAmountZero
      else case NewAddressFromString ledger address of
        None \<Rightarrow> Inl InvalidAddress
      | Some addr \<Rightarrow>
          (case p2pkhLock ledger addr of
             None \<Rightarrow> Inl LockingScriptFailed
           | Some lockingScript \<Rightarrow>
               (let proj = \<lparr>pb_Version = 1,
                            pb_Details = Some \<lparr>pb_Network = ''mainnet'',
                              pb_Outputs = [\<lparr>pb_Amount = goal, pb_Script = lockingScript\<rparr>],
                              pb_Time = now, pb_Expires = None, pb_Memo = description\<rparr>,
                            pb_Extra = Some \<lparr>pb_Title = title, pb_CoverImage = [],
                              pb_AuthKey = [], pb_MinPledgeAmount = 10000\<rparr>\<rparr>;
                    p = \<lparr>project_pb = proj, project_id = [], goalAmount = goal\<rparr>
                in Inr (p\<lparr>project_id := Project_calculateID fmt p\<rparr>))))"

text \<open>The loop of \<open>LoadProject\<close> that adds up the decoded outputs.\<close>

fun sumOutputAmounts :: "u64 \<Rightarrow> pb_Output list \<Rightarrow> u64" where
  "sumOutputAmounts goal [] = goal"
| "sumOutputAmounts goal (out # rest) = sumOutputAmounts (goal + pb_Amount out) rest"

text \<open>
  \<open>LoadProject\<close> reads \<open>proj.Details.Outputs\<close> without a nil check, so a message
  with no \<open>Details\<close> panics.
\<close>

definition LoadProject :: "'w PersistenceFormat \<Rightarrow> 'w \<Rightarrow> error + Project" where
  "LoadProject fmt data =
     (case unmarshalProject fmt data of
        None \<Rightarrow> Inl UnmarshalFailed
      | Some proj \<Rightarrow>
          (case pb_Details proj of
             None \<Rightarrow> Inl NilPointer
           | Some d \<Rightarrow>
               (let p = \<lparr>project_pb = proj, project_id = [],
                         goalAmount = sumOutputAmounts 0 (pb_Outputs d)\<rparr>
                in Inr (p\<lparr>project_id := Project_calculateID fmt p\<rparr>))))"

section \<open>Binary64 arithmetic\<close>

text \<open>
  \<open>NewPledge\<close> scales the outputs in \<open>float64\<close>. The operands all come from
  \<open>uint64\<close> values, so only non-negative numbers, infinity and NaN arise, and every
  finite result lies between \<open>2\<^sup>-\<^sup>6\<^sup>4\<close> and \<open>2\<^sup>1\<^sup>2\<^sup>8\<close> or is zero: far from the ends
  of the exponent range. A finite value is a pair of a significand and an exponent,
  \<open>Finite m e\<close> standing for \<open>m * 2\<^sup>e\<close>; each operation rounds the exact result to 53
  significant bits, to nearest with ties to even, as IEEE 754 prescribes for Go's
  conversions, division and multiplication.
\<close>

datatype f64 = Finite nat int | PosInf | NaN

text \<open>The integer nearest to \<open>n / d\<close>, the even one of two equally near.\<close>

definition roundNearestEven :: "nat \<Rightarrow> nat \<Rightarrow> nat" where
  "roundNearestEven n d =
     (let q = n div d; r = n mod d
      in if 2 * r < d then q
         else if 2 * r > d then q + 1
         else if even q then q else q + 1)"

text \<open>
  \<open>n / d\<close> scaled by \<open>2\<^sup>-\<^sup>e\<close>, as a numerator and a denominator.
\<close>

definition scaledNum :: "nat \<Rightarrow> int \<Rightarrow> nat" where
  "scaledNum n e = n * 2 ^ nat (- e)"

definition scaledDen :: "nat \<Rightarrow> int \<Rightarrow> nat" where
  "scaledDen d e = d * 2 ^ nat e"

text \<open>
  \<open>round53 n d\<close>, for positive \<open>n\<close> and \<open>d\<close>: the exponent \<open>e\<close> with
  \<open>2\<^sup>5\<^sup>2 \<le> (n / d) / 2\<^sup>e < 2\<^sup>5\<^sup>3\<close>, found from the bit lengths of \<open>n\<close> and \<open>d\<close>, and
  the quotient rounded at that scale.
\<close>

definition round53 :: "nat \<Rightarrow> nat \<Rightarrow> nat \<times> int" where
  "round53 n d =
     (let k = int (floorlog 2 n) - int (floorlog 2 d) - 53;
          e = (if scaledNum n k < scaledDen d k * 2 ^ 53 then k else k + 1)
      in (roundNearestEven (scaledNum n e) (scaledDen d e), e))"

definition f64_of_u64 :: "u64 \<Rightarrow> f64" where
  "f64_of_u64 x =
     (if x = 0 then Finite 0 0
      else case round53 (unat x) 1 of (m, e) \<Rightarrow> Finite m e)"

fun f64_div :: "f64 \<Rightarrow> f64 \<Rightarrow> f64" where
  "f64_div (Finite m1 e1) (Finite m2 e2) =
     (if m2 = 0 then (if m1 = 0 then NaN else PosInf)
      else if m1 = 0 then Finite 0 0
      else case round53 m1 m2 of (m, e) \<Rightarrow> Finite m (e + e1 - e2))"
| "f64_div (Finite m1 e1) PosInf = Finite 0 0"
| "f64_div PosInf (Finite m2 e2) = PosInf"
| "f64_div PosInf PosInf = NaN"
| "f64_div NaN y = NaN"
| "f64_div x NaN = NaN"

fun f64_mul :: "f64 \<Rightarrow> f64 \<Rightarrow> f64" where
  "f64_mul (Finite m1 e1) (Finite m2 e2) =
     (if m1 = 0 \<or> m2 = 0 then Finite 0 0
      else case round53 (m1 * m2) 1 of (m, e) \<Rightarrow> Finite m (e + e1 + e2))"
| "f64_mul (Finite m1 e1) PosInf = (if m1 = 0 then NaN else PosInf)"
| "f64_mul PosInf (Finite m2 e2) = (if m2 = 0 then NaN else PosInf)"
| "f64_mul PosInf PosInf = PosInf"
| "f64_mul NaN y = NaN"
| "f64_mul x NaN = NaN"

text \<open>
  The conversion \<open>uint64(f)\<close> drops the fraction. Where the value does not fit
  (too large, infinite or NaN) Go leaves the result to the implementation: the
  parameter \<open>conv\<close> is that choice.
\<close>

definition f64_to_u64 :: "(f64 \<Rightarrow> u64) \<Rightarrow> f64 \<Rightarrow> u64" where
  "f64_to_u64 conv f =
     (case f of
        Finite m e \<Rightarrow>
          (let v = (if e \<ge> 0 then m * 2 ^ nat e else m div 2 ^ nat (- e))
           in if v < 2 ^ 64 then of_nat v else conv f)
      | _ \<Rightarrow> conv f)"

section \<open>Pledge construction and persistence\<close>

text \<open>
  \<open>AddInputsFromUTXOs\<close> is the SDK's method: it appends one input for each UTXO, in
  argument order, with the UTXO's transaction id and index, the default sequence
  number, no unlocking script, and the UTXO's amount and locking script as the
  source output. It reports no error for UTXOs that are already decoded.
\<close>

definition inputFromUTXO :: "UTXO \<Rightarrow> TransactionInput" where
  "inputFromUTXO u =
     \<lparr>SourceTXID = TxID u, SourceTxOutIndex = Vout u, UnlockingScript = None,
      SequenceNumber = 0xFFFFFFFF,
      SourceTxOutput = Some \<lparr>Satoshis = UTXOSatoshis u, LockingScript = UTXOLockingScript u\<rparr>\<rparr>"

definition AddInputsFromUTXOs :: "Transaction \<Rightarrow> UTXO list \<Rightarrow> error + Transaction" where
  "AddInputsFromUTXOs t utxos = Inr (t\<lparr>Inputs := Inputs t @ map inputFromUTXO utxos\<rparr>)"

text \<open>
  The loop of \<open>NewPledge\<close> over the UTXOs: it adds up their amounts and breaks as
  soon as the total reaches \<open>amount\<close>. It selects nothing; the inputs were all added
  before.
\<close>

fun sumUntil :: "u64 \<Rightarrow> u64 \<Rightarrow> UTXO list \<Rightarrow> u64" where
  "sumUntil totalInput amt [] = totalInput"
| "sumUntil totalInput amt (u # rest) =
     (let totalInput' = totalInput + UTXOSatoshis u
      in if totalInput' \<ge> amt then totalInput' else sumUntil totalInput' amt rest)"

definition pledgeOutput :: "(f64 \<Rightarrow> u64) \<Rightarrow> f64 \<Rightarrow> TransactionOutput \<Rightarrow> TransactionOutput" where
  "pledgeOutput conv pledgeRatio out =
     \<lparr>Satoshis = f64_to_u64 conv (f64_mul (f64_of_u64 (Satoshis out)) pledgeRatio),
      LockingScript = LockingScript out\<rparr>"

definition pbInput :: "TransactionInput \<Rightarrow> pb_Input" where
  "pbInput inp =
     \<lparr>pb_TxHash = SourceTXID inp, pb_OutputIndex = SourceTxOutIndex inp,
      pb_UnlockScript = [], pb_Sequence = SequenceNumber inp\<rparr>"

definition Pledge_Serialize :: "'w PersistenceFormat \<Rightarrow> Pledge \<Rightarrow> 'w \<times> error option" where
  "Pledge_Serialize fmt p = marshalPledge fmt (pledge_pb p)"

definition Pledge_calculateID :: "'w PersistenceFormat \<Rightarrow> Pledge \<Rightarrow> string" where
  "Pledge_calculateID fmt p = (case Pledge_Serialize fmt p of (data, err) \<Rightarrow> sha256Hex fmt data)"

definition NewPledge ::
  "'w PersistenceFormat \<Rightarrow> (f64 \<Rightarrow> u64) \<Rightarrow> int \<Rightarrow> Project \<Rightarrow> u64 \<Rightarrow> UTXO list \<Rightarrow> error + Pledge" where
  "NewPledge fmt conv now proj amt utxos =
     (if amt < MinPledgeAmount proj then Inl (BelowMinimum amt (MinPledgeAmount proj))
      else case AddInputsFromUTXOs NewTransaction utxos of
        Inl e \<Rightarrow> Inl e
      | Inr t1 \<Rightarrow>
          (let totalInput = sumUntil 0 amt utxos
           in if totalInput < amt then Inl (InsufficientFunds totalInput amt)
              else case Project_Outputs proj of
                Inl e \<Rightarrow> Inl (OutputsFailed e)
              | Inr outputs \<Rightarrow>
                  (let pledgeRatio = f64_div (f64_of_u64 amt) (f64_of_u64 (GoalAmount proj));
                       t2 = foldl AddOutput t1 (map (pledgeOutput conv pledgeRatio) outputs);
                       pledge = \<lparr>pb_ProjectId = Project_ID proj,
                                 pb_Inputs = map pbInput (Inputs t2),
                                 pb_PledgeTime = now, pb_PledgeMemo = [],
                                 pb_RefundAddress = [], pb_Contact = None\<rparr>;
                       p = \<lparr>pledge_pb = pledge, pledge_id = [], amount = amt, tx = Some t2\<rparr>
                   in Inr (p\<lparr>pledge_id := Pledge_calculateID fmt p\<rparr>))))"

text \<open>
  \<open>LoadPledge\<close> rebuilds the inputs only. \<open>chainhash.NewHash\<close> accepts exactly 32
  bytes. The unlocking script of a rebuilt input is a pointer to the decoded bytes,
  never nil, and its source output is unknown.
\<close>

definition NewHash :: "bytes \<Rightarrow> bytes option" where
  "NewHash b = (if length b = 32 then Some b else None)"

fun loadInputs :: "pb_Input list \<Rightarrow> Transaction \<Rightarrow> error + Transaction" where
  "loadInputs [] t = Inr t"
| "loadInputs (inp # rest) t =
     (case NewHash (pb_TxHash inp) of
        None \<Rightarrow> Inl InvalidTxHash
      | Some txid \<Rightarrow>
          loadInputs rest
            (t\<lparr>Inputs := Inputs t @
                [\<lparr>SourceTXID = txid, SourceTxOutIndex = pb_OutputIndex inp,
                  UnlockingScript = Some (pb_UnlockScript inp),
                  SequenceNumber = pb_Sequence inp, SourceTxOutput = None\<rparr>]\<rparr>))"

definition LoadPledge :: "'w PersistenceFormat \<Rightarrow> 'w \<Rightarrow> error + Pledge" where
  "LoadPledge fmt data =
     (case unmarshalPledge fmt data of
        None \<Rightarrow> Inl UnmarshalFailed
      | Some pledge \<Rightarrow>
          (case loadInputs (pb_Inputs pledge) NewTransaction of
             Inl e \<Rightarrow> Inl e
           | Inr t \<Rightarrow>
               (let p = \<lparr>pledge_pb = pledge, pledge_id = [], amount = 0, tx = Some t\<rparr>
                in Inr (p\<lparr>pledge_id := Pledge_calculateID fmt p\<rparr>))))"

section \<open>Pledge accessors and validation\<close>

definition Pledge_ID :: "Pledge \<Rightarrow> string" where
  "Pledge_ID p = pledge_id p"

definition Amount :: "Pledge \<Rightarrow> u64" where
  "Amount p = amount p"

definition ProjectID :: "Pledge \<Rightarrow> string" where
  "ProjectID p = pb_ProjectId (pledge_pb p)"

definition Pledge_Transaction :: "Pledge \<Rightarrow> Transaction option" where
  "Pledge_Transaction p = tx p"

text \<open>
  The signature loop of \<open>Validate\<close>: the first input, counted from \<open>i\<close>, whose
  unlocking script is nil or empty.
\<close>

fun checkSigned :: "nat \<Rightarrow> TransactionInput list \<Rightarrow> validate_error option" where
  "checkSigned i [] = None"
| "checkSigned i (inp # rest) =
     (case UnlockingScript inp of
        None \<Rightarrow> Some (NotSigned i)
      | Some s \<Rightarrow> if length s = 0 then Some (NotSigned i) else checkSigned (Suc i) rest)"

definition Validate :: "Pledge \<Rightarrow> validate_error option" where
  "Validate p =
     (case tx p of
        None \<Rightarrow> Some NoTransaction
      | Some t \<Rightarrow>
          if length (Inputs t) = 0 then Some NoInputs
          else if length (Outputs t) = 0 then Some NoOutputs
          else checkSigned 0 (Inputs t))"

section \<open>Contract\<close>

definition NewContract :: "Project \<Rightarrow> Contract" where
  "NewContract p = \<lparr>project = p, pledges = [], combined = None\<rparr>"

text \<open>
  \<open>hasDuplicateInputs\<close> keys an input by the string
  \<open>Sprintf("%x:%d", SourceTXID, SourceTxOutIndex)\<close>. The hexadecimal part holds no
  colon, so two keys are equal exactly when the transaction ids and the indices
  are: the key is the pair. The Go map of keys, read with a default of false, is a
  partial map to \<open>bool\<close>.
\<close>

type_synonym input_key = "bytes \<times> u32"

definition inputKey :: "TransactionInput \<Rightarrow> input_key" where
  "inputKey inp = (SourceTXID inp, SourceTxOutIndex inp)"

fun buildInputMap :: "TransactionInput list \<Rightarrow> (input_key \<rightharpoonup> bool) \<Rightarrow> (input_key \<rightharpoonup> bool)" where
  "buildInputMap [] m = m"
| "buildInputMap (inp # rest) m = buildInputMap rest (m(inputKey inp \<mapsto> True))"

definition lookupKey :: "(input_key \<rightharpoonup> bool) \<Rightarrow> input_key \<Rightarrow> bool" where
  "lookupKey m k = (case m k of Some b \<Rightarrow> b | None \<Rightarrow> False)"

fun anyInputIn :: "(input_key \<rightharpoonup> bool) \<Rightarrow> TransactionInput list \<Rightarrow> bool" where
  "anyInputIn m [] = False"
| "anyInputIn m (inp # rest) = (if lookupKey m (inputKey inp) then True else anyInputIn m rest)"

definition hasDuplicateInputs :: "Pledge \<Rightarrow> Pledge \<Rightarrow> error + bool" where
  "hasDuplicateInputs p1 p2 =
     (case tx p1 of
        None \<Rightarrow> Inl NilPointer
      | Some t1 \<Rightarrow>
          (case tx p2 of
             None \<Rightarrow> Inl NilPointer
           | Some t2 \<Rightarrow> Inr (anyInputIn (buildInputMap (Inputs t1) Map.empty) (Inputs t2))))"

text \<open>The loop of \<open>AddPledge\<close> over the pledges accepted so far.\<close>

fun checkExisting :: "Pledge list \<Rightarrow> Pledge \<Rightarrow> error option" where
  "checkExisting [] p = None"
| "checkExisting (existing # rest) p =
     (case hasDuplicateInputs existing p of
        Inl e \<Rightarrow> Some e
      | Inr dup \<Rightarrow> if dup then Some DuplicateInputs else checkExisting rest p)"

text \<open>
  \<open>AddPledge\<close> mutates the contract and returns an error or nil: the model returns
  the error, if any, with the contract as the call leaves it.
\<close>

definition AddPledge :: "Contract \<Rightarrow> Pledge \<Rightarrow> error option \<times> Contract" where
  "AddPledge c p =
     (if ProjectID p \<noteq> Project_ID (project c) then (Some WrongProject, c)
      else case Validate p of
        Some e \<Rightarrow> (Some (InvalidPledge e), c)
      | None \<Rightarrow>
          (case checkExisting (pledges c) p of
             Some e \<Rightarrow> (Some e, c)
           | None \<Rightarrow> (None, c\<lparr>pledges := pledges c @ [p]\<rparr>)))"

fun sumAmounts :: "u64 \<Rightarrow> Pledge list \<Rightarrow> u64" where
  "sumAmounts totalSoFar [] = totalSoFar"
| "sumAmounts totalSoFar (p # ps) = sumAmounts (totalSoFar + Amount p) ps"

definition TotalPledged :: "Contract \<Rightarrow> u64" where
  "TotalPledged c = sumAmounts 0 (pledges c)"

definition CanClaim :: "Contract \<Rightarrow> bool" where
  "CanClaim c = (TotalPledged c \<ge> GoalAmount (project c))"

text \<open>
  The two loops of \<open>Combine\<close>. The first appends every input of every pledge and adds
  the pledge's amount (not the value of its inputs) to \<open>inputValue\<close>; the second appends
  the project's outputs and adds up their amounts.
\<close>

fun gatherInputs :: "Pledge list \<Rightarrow> Transaction \<Rightarrow> u64 \<Rightarrow> error + Transaction \<times> u64" where
  "gatherInputs [] t inputValue = Inr (t, inputValue)"
| "gatherInputs (p # ps) t inputValue =
     (case Pledge_Transaction p of
        None \<Rightarrow> Inl NilPointer
      | Some pt \<Rightarrow> gatherInputs ps (t\<lparr>Inputs := Inputs t @ Inputs pt\<rparr>) (inputValue + Amount p))"

fun addOutputs :: "TransactionOutput list \<Rightarrow> Transaction \<Rightarrow> u64 \<Rightarrow> Transaction \<times> u64" where
  "addOutputs [] t outputValue = (t, outputValue)"
| "addOutputs (out # rest) t outputValue =
     addOutputs rest (AddOutput t out) (outputValue + Satoshis out)"

definition addChange :: "Transaction \<Rightarrow> u64 \<Rightarrow> u64 \<Rightarrow> Transaction" where
  "addChange t inputValue outputValue =
     (if inputValue > outputValue then
        (let change = inputValue - outputValue in
         case Outputs t of
           [] \<Rightarrow> t
         | first # rest \<Rightarrow> t\<lparr>Outputs := first\<lparr>Satoshis := Satoshis first + change\<rparr> # rest\<rparr>)
      else t)"

definition Combine :: "Contract \<Rightarrow> (error + Transaction) \<times> Contract" where
  "Combine c =
     (if \<not> CanClaim c then
        (Inl (GoalNotReached (TotalPledged c) (GoalAmount (project c))), c)
      else case gatherInputs (pledges c) NewTransaction 0 of
        Inl e \<Rightarrow> (Inl e, c)
      | Inr (t1, inputValue) \<Rightarrow>
          (case Project_Outputs (project c) of
             Inl e \<Rightarrow> (Inl (OutputsFailed e), c)
           | Inr outputs \<Rightarrow>
               (case addOutputs outputs t1 0 of
                  (t2, outputValue) \<Rightarrow>
                    (let t3 = addChange t2 inputValue outputValue
                     in (Inr t3, c\<lparr>combined := Some t3\<rparr>)))))"

definition Contract_Transaction :: "Contract \<Rightarrow> Transaction option" where
  "Contract_Transaction c = combined c"

text \<open>
  \<open>RemovePledge\<close> looks for the first pledge with the given id and cuts it out of the
  slice: \<open>append(pledges[:i], pledges[i+1:]...)\<close>.
\<close>

fun findPledge :: "nat \<Rightarrow> Pledge list \<Rightarrow> string \<Rightarrow> nat option" where
  "findPledge i [] pledgeID = None"
| "findPledge i (p # ps) pledgeID =
     (if Pledge_ID p = pledgeID then Some i else findPledge (Suc i) ps pledgeID)"

definition RemovePledge :: "Contract \<Rightarrow> string \<Rightarrow> error option \<times> Contract" where
  "RemovePledge c pledgeID =
     (case findPledge 0 (pledges c) pledgeID of
        Some i \<Rightarrow> (None, c\<lparr>pledges := take i (pledges c) @ drop (Suc i) (pledges c)\<rparr>)
      | None \<Rightarrow> (Some PledgeNotFound, c))"


section \<open>Notions of the specification\<close>

text \<open>
  The words of the specification that the properties below are stated in. They
  describe results; none of them is part of the program.
\<close>

text \<open>The inputs of a pledge: those of its transaction, none if it has no transaction.\<close>

definition pledgeInputs :: "Pledge \<Rightarrow> TransactionInput list" where
  "pledgeInputs p = (case tx p of None \<Rightarrow> [] | Some t \<Rightarrow> Inputs t)"

text \<open>
  Structurally invalid: zero inputs, zero outputs, or an input with an empty
  authorization proof. A pledge with no transaction at all has neither inputs nor
  outputs.
\<close>

definition structurallyInvalid :: "Pledge \<Rightarrow> bool" where
  "structurallyInvalid p \<longleftrightarrow>
     (case tx p of
        None \<Rightarrow> True
      | Some t \<Rightarrow>
          Inputs t = [] \<or> Outputs t = [] \<or>
          (\<exists>inp \<in> set (Inputs t). UnlockingScript inp = None \<or> UnlockingScript inp = Some []))"

text \<open>
  Some \<open>(sourceTxId, outputIndex)\<close> of the pledge already appears among the inputs
  of the accepted pledges.
\<close>

definition reusesAcceptedInput :: "Pledge list \<Rightarrow> Pledge \<Rightarrow> bool" where
  "reusesAcceptedInput ps p \<longleftrightarrow>
     (\<exists>q \<in> set ps. \<exists>i \<in> set (pledgeInputs q). \<exists>j \<in> set (pledgeInputs p).
        inputKey i = inputKey j)"

text \<open>
  The contract's invariant on the pointers it holds: every accepted pledge has a
  transaction. Both constructors of a pledge set one, and \<open>AddPledge\<close> validates
  before it appends.
\<close>

definition pledgesHaveTx :: "Contract \<Rightarrow> bool" where
  "pledgesHaveTx c \<longleftrightarrow> (\<forall>q \<in> set (pledges c). tx q \<noteq> None)"

text \<open>The payout outputs of a project, and their amounts.\<close>

definition payoutOutputs :: "Project \<Rightarrow> TransactionOutput list" where
  "payoutOutputs p = (case Project_Outputs p of Inr outs \<Rightarrow> outs | Inl e \<Rightarrow> [])"

text \<open>
  The value of an input is the amount of the output it spends, where the
  transaction knows it; the input values of a transaction are their sum.
\<close>

definition inputValue :: "TransactionInput \<Rightarrow> u64" where
  "inputValue inp = (case SourceTxOutput inp of Some out \<Rightarrow> Satoshis out | None \<Rightarrow> 0)"

definition inputValues :: "Transaction \<Rightarrow> u64" where
  "inputValues t = sum_list (map inputValue (Inputs t))"

text \<open>
  The share of a payout amount \<open>p\<close> for a pledge of \<open>a\<close> against a goal of \<open>g\<close> in
  exact integer arithmetic: \<open>floor (p * a / g)\<close>, multiplying before dividing.
\<close>

definition exactShare :: "u64 \<Rightarrow> u64 \<Rightarrow> u64 \<Rightarrow> nat" where
  "exactShare p a g = (unat p * unat a) div unat g"

text \<open>
  The transaction a successful \<open>Combine\<close> builds, in closed form: every pledge's
  inputs in order, the payout outputs, and the change step applied to the total
  pledged and the payout total.
\<close>

definition combinedOf :: "Contract \<Rightarrow> Transaction" where
  "combinedOf c =
     addChange
       (NewTransaction\<lparr>Inputs := concat (map pledgeInputs (pledges c)),
                       Outputs := payoutOutputs (project c)\<rparr>)
       (TotalPledged c) (sum_list (map Satoshis (payoutOutputs (project c))))"

section \<open>Example data\<close>

text \<open>
  The schema is proto3, and \<open>proto.Marshal\<close> reports an error for a message with a
  \<open>string\<close> field that is not valid UTF-8. \<open>ValidString\<close> is that test, as Go's
  \<open>utf8.ValidString\<close> makes it: a state of how many continuation bytes are due and
  the range the next one must lie in.
\<close>

fun utf8Step :: "nat \<times> nat \<times> nat \<Rightarrow> nat \<Rightarrow> (nat \<times> nat \<times> nat) option" where
  "utf8Step (n, lo, hi) b =
     (if n = 0 then
        (if b < 0x80 then Some (0, 0x80, 0xBF)
         else if 0xC2 \<le> b \<and> b \<le> 0xDF then Some (1, 0x80, 0xBF)
         else if b = 0xE0 then Some (2, 0xA0, 0xBF)
         else if 0xE1 \<le> b \<and> b \<le> 0xEC then Some (2, 0x80, 0xBF)
         else if b = 0xED then Some (2, 0x80, 0x9F)
         else if 0xEE \<le> b \<and> b \<le> 0xEF then Some (2, 0x80, 0xBF)
         else if b = 0xF0 then Some (3, 0x90, 0xBF)
         else if 0xF1 \<le> b \<and> b \<le> 0xF3 then Some (3, 0x80, 0xBF)
         else if b = 0xF4 then Some (3, 0x80, 0x8F)
         else None)
      else if lo \<le> b \<and> b \<le> hi then Some (n - 1, 0x80, 0xBF)
      else None)"

fun utf8Run :: "nat \<times> nat \<times> nat \<Rightarrow> nat list \<Rightarrow> bool" where
  "utf8Run st [] = (fst st = 0)"
| "utf8Run st (b # bs) = (case utf8Step st b of None \<Rightarrow> False | Some st' \<Rightarrow> utf8Run st' bs)"

definition ValidString :: "string \<Rightarrow> bool" where
  "ValidString s = utf8Run (0, 0x80, 0xBF) (map of_char s)"

definition validProjectStrings :: "pb_Project \<Rightarrow> bool" where
  "validProjectStrings m \<longleftrightarrow>
     (case pb_Details m of None \<Rightarrow> True
      | Some d \<Rightarrow> ValidString (pb_Network d) \<and> ValidString (pb_Memo d))
     \<and> (case pb_Extra m of None \<Rightarrow> True | Some x \<Rightarrow> ValidString (pb_Title x))"

definition validPledgeStrings :: "pb_Pledge \<Rightarrow> bool" where
  "validPledgeStrings m \<longleftrightarrow>
     ValidString (pb_PledgeMemo m) \<and> ValidString (pb_RefundAddress m)
     \<and> (case pb_Contact m of None \<Rightarrow> True
         | Some c \<Rightarrow> ValidString (pb_Name c) \<and> ValidString (pb_Email c))"

text \<open>
  A stand-in for the wire format, where the encoded message is the message itself,
  tagged with its kind, encoding reports an error for a string that is not valid
  UTF-8, and the digest is a fixed word for each kind; and a stand-in for the address
  primitives, where every address decodes to the same script.
\<close>

definition exFormat :: "(pb_Project + pb_Pledge) PersistenceFormat" where
  "exFormat =
     \<lparr>marshalProject =
        (\<lambda>m. (Inl m, if validProjectStrings m then None else Some MarshalFailed)),
      unmarshalProject = (\<lambda>w. case w of Inl m \<Rightarrow> Some m | Inr m \<Rightarrow> None),
      marshalPledge =
        (\<lambda>m. (Inr m, if validPledgeStrings m then None else Some MarshalFailed)),
      unmarshalPledge = (\<lambda>w. case w of Inl m \<Rightarrow> None | Inr m \<Rightarrow> Some m),
      sha256Hex = (\<lambda>w. case w of Inl m \<Rightarrow> ''project-1'' | Inr m \<Rightarrow> ''pledge-1'')\<rparr>"

definition exScript :: bytes where
  "exScript = [0x76, 0xA9, 0x88, 0xAC]"

definition exLedger :: "string SigningLedger" where
  "exLedger = \<lparr>NewAddressFromString = Some, p2pkhLock = (\<lambda>a. Some exScript)\<rparr>"

text \<open>The project of the package's tests: a goal of 100000000 in one payout output.\<close>

definition exProject :: Project where
  "exProject =
     \<lparr>project_pb =
        \<lparr>pb_Version = 1,
         pb_Details = Some \<lparr>pb_Network = ''mainnet'',
           pb_Outputs = [\<lparr>pb_Amount = 100000000, pb_Script = exScript\<rparr>],
           pb_Time = 0, pb_Expires = None, pb_Memo = ''Test Description''\<rparr>,
         pb_Extra = Some \<lparr>pb_Title = ''Test Project'', pb_CoverImage = [],
           pb_AuthKey = [], pb_MinPledgeAmount = 10000\<rparr>\<rparr>,
      project_id = ''project-1'', goalAmount = 100000000\<rparr>"

text \<open>
  The project \<open>NewProject\<close> creates for a title of the one byte \<open>0xFF\<close>, which is
  not empty and not valid UTF-8.
\<close>

definition exBadProject :: Project where
  "exBadProject =
     \<lparr>project_pb =
        \<lparr>pb_Version = 1,
         pb_Details = Some \<lparr>pb_Network = ''mainnet'',
           pb_Outputs = [\<lparr>pb_Amount = 100000000, pb_Script = exScript\<rparr>],
           pb_Time = 0, pb_Expires = None, pb_Memo = ''Test Description''\<rparr>,
         pb_Extra = Some \<lparr>pb_Title = [CHR 0xFF], pb_CoverImage = [],
           pb_AuthKey = [], pb_MinPledgeAmount = 10000\<rparr>\<rparr>,
      project_id = ''project-1'', goalAmount = 100000000\<rparr>"

text \<open>
  A signed input that spends output 0 of the transaction whose id is 32 times the
  byte \<open>b\<close>, worth \<open>v\<close>; and a signed pledge of \<open>amt\<close> to the example project with
  identifier \<open>pid\<close> and the inputs \<open>ins\<close>.
\<close>

definition exInput :: "8 word \<Rightarrow> u64 \<Rightarrow> TransactionInput" where
  "exInput b v =
     \<lparr>SourceTXID = replicate 32 b, SourceTxOutIndex = 0, UnlockingScript = Some [0x47],
      SequenceNumber = 0xFFFFFFFF,
      SourceTxOutput = Some \<lparr>Satoshis = v, LockingScript = exScript\<rparr>\<rparr>"

definition exPledge :: "string \<Rightarrow> u64 \<Rightarrow> TransactionInput list \<Rightarrow> Pledge" where
  "exPledge pid amt ins =
     \<lparr>pledge_pb =
        \<lparr>pb_ProjectId = ''project-1'',
         pb_Inputs = map (\<lambda>inp. (pbInput inp)\<lparr>pb_UnlockScript := [0x47]\<rparr>) ins,
         pb_PledgeTime = 0, pb_PledgeMemo = [], pb_RefundAddress = [], pb_Contact = None\<rparr>,
      pledge_id = pid, amount = amt,
      tx = Some \<lparr>Version = 1, Inputs = ins,
                 Outputs = [\<lparr>Satoshis = amt, LockingScript = exScript\<rparr>], LockTime = 0\<rparr>\<rparr>"

definition exUTXO :: "8 word \<Rightarrow> u64 \<Rightarrow> UTXO" where
  "exUTXO b v = \<lparr>TxID = replicate 32 b, Vout = 0, UTXOLockingScript = exScript, UTXOSatoshis = v\<rparr>"

text \<open>
  Three pledges: \<open>exA\<close> pledges the whole goal from an input worth more than the
  goal, \<open>exB\<close> a fifth of the goal, and \<open>exDup\<close> lists one input twice.
\<close>

definition exA :: Pledge where
  "exA = exPledge ''pledge-a'' 100000000 [exInput 1 150000000]"

definition exB :: Pledge where
  "exB = exPledge ''pledge-b'' 20000000 [exInput 2 30000000]"

definition exDup :: Pledge where
  "exDup = exPledge ''pledge-d'' 50000000 [exInput 3 30000000, exInput 3 30000000]"

definition exContract :: "Pledge list \<Rightarrow> Contract" where
  "exContract ps = \<lparr>project = exProject, pledges = ps, combined = None\<rparr>"

definition exCombinedA :: Transaction where
  "exCombinedA =
     \<lparr>Version = 1, Inputs = [exInput 1 150000000],
      Outputs = [\<lparr>Satoshis = 100000000, LockingScript = exScript\<rparr>], LockTime = 0\<rparr>"

definition exCombinedAB :: Transaction where
  "exCombinedAB =
     \<lparr>Version = 1, Inputs = [exInput 1 150000000, exInput 2 30000000],
      Outputs = [\<lparr>Satoshis = 120000000, LockingScript = exScript\<rparr>], LockTime = 0\<rparr>"

text \<open>
  The pledge \<open>NewPledge\<close> builds for 50000 out of two UTXOs worth 60000 and 70000,
  and the pledge \<open>LoadPledge\<close> rebuilds from the serialized \<open>exA\<close>.
\<close>

definition exUTXOs :: "UTXO list" where
  "exUTXOs = [exUTXO 1 60000, exUTXO 2 70000]"

definition exNewPledge :: Pledge where
  "exNewPledge =
     \<lparr>pledge_pb =
        \<lparr>pb_ProjectId = ''project-1'',
         pb_Inputs =
           [\<lparr>pb_TxHash = replicate 32 1, pb_OutputIndex = 0, pb_UnlockScript = [],
             pb_Sequence = 0xFFFFFFFF\<rparr>,
            \<lparr>pb_TxHash = replicate 32 2, pb_OutputIndex = 0, pb_UnlockScript = [],
             pb_Sequence = 0xFFFFFFFF\<rparr>],
         pb_PledgeTime = 0, pb_PledgeMemo = [], pb_RefundAddress = [], pb_Contact = None\<rparr>,
      pledge_id = ''pledge-1'', amount = 50000,
      tx = Some \<lparr>Version = 1,
                 Inputs = [inputFromUTXO (exUTXO 1 60000), inputFromUTXO (exUTXO 2 70000)],
                 Outputs = [\<lparr>Satoshis = 50000, LockingScript = exScript\<rparr>], LockTime = 0\<rparr>\<rparr>"

definition exLoadedA :: Pledge where
  "exLoadedA =
     \<lparr>pledge_pb = pledge_pb exA, pledge_id = ''pledge-1'', amount = 0,
      tx = Some \<lparr>Version = 1,
                 Inputs = [\<lparr>SourceTXID = replicate 32 1, SourceTxOutIndex = 0,
                            UnlockingScript = Some [0x47], SequenceNumber = 0xFFFFFFFF,
                            SourceTxOutput = None\<rparr>],
                 Outputs = [], LockTime = 0\<rparr>\<rparr>"

text \<open>
  The pledge \<open>NewPledge\<close> builds for 12215 out of one UTXO worth 50000: its output
  carries 12214.
\<close>

definition exPledge12215 :: Pledge where
  "exPledge12215 =
     \<lparr>pledge_pb =
        \<lparr>pb_ProjectId = ''project-1'',
         pb_Inputs =
           [\<lparr>pb_TxHash = replicate 32 1, pb_OutputIndex = 0, pb_UnlockScript = [],
             pb_Sequence = 0xFFFFFFFF\<rparr>],
         pb_PledgeTime = 0, pb_PledgeMemo = [], pb_RefundAddress = [], pb_Contact = None\<rparr>,
      pledge_id = ''pledge-1'', amount = 12215,
      tx = Some \<lparr>Version = 1, Inputs = [inputFromUTXO (exUTXO 1 50000)],
                 Outputs = [\<lparr>Satoshis = 12214, LockingScript = exScript\<rparr>], LockTime = 0\<rparr>\<rparr>"

text \<open>
  \<open>builtLike r q\<close>: the call \<open>r\<close> of \<open>NewPledge\<close> succeeded, and the pledge \<open>q\<close> has
  the amount, project, inputs (with the outputs they spend) and outputs of its
  result. What \<open>q\<close> adds is the signatures and an identifier.
\<close>

definition builtLike :: "error + Pledge \<Rightarrow> Pledge \<Rightarrow> bool" where
  "builtLike r q \<longleftrightarrow>
     (case r of
        Inl e \<Rightarrow> False
      | Inr p \<Rightarrow>
          Amount p = Amount q \<and> ProjectID p = ProjectID q
          \<and> map inputKey (pledgeInputs p) = map inputKey (pledgeInputs q)
          \<and> map SourceTxOutput (pledgeInputs p) = map SourceTxOutput (pledgeInputs q)
          \<and> map Outputs (case tx p of Some t \<Rightarrow> [t] | None \<Rightarrow> [])
              = map Outputs (case tx q of Some t \<Rightarrow> [t] | None \<Rightarrow> []))"

section \<open>Properties\<close>

subsection \<open>Evaluating the examples\<close>

lemmas ex_defs = exA_def exB_def exDup_def exContract_def exCombinedA_def exCombinedAB_def
  exPledge_def exInput_def exProject_def exScript_def

lemmas contract_defs = AddPledge_def Validate_def hasDuplicateInputs_def ProjectID_def
  Project_ID_def lookupKey_def inputKey_def NewContract_def Combine_def CanClaim_def
  TotalPledged_def Amount_def GoalAmount_def Pledge_Transaction_def Project_Outputs_def
  NewTransaction_def AddOutput_def addChange_def RemovePledge_def Pledge_ID_def
  Contract_Transaction_def Let_def

lemma exProject_is_NewProject:
  "NewProject exFormat exLedger 0 ''Test Project'' ''Test Description'' 100000000
     ''1NKNazRR5jKgGqELVHDK47JAZrqtAWWy5q'' = Inr exProject"
  by (simp add: NewProject_def exFormat_def exLedger_def exProject_def Project_calculateID_def
      Project_Serialize_def)

lemma ex_AddPledge_A: "AddPledge (NewContract exProject) exA = (None, exContract [exA])"
  by (simp add: ex_defs contract_defs)

lemma ex_Combine_A:
  "Combine (exContract [exA]) =
     (Inr exCombinedA, (exContract [exA])\<lparr>combined := Some exCombinedA\<rparr>)"
  by (simp add: ex_defs contract_defs)

lemma ex_Combine_AB:
  "Combine (exContract [exA, exB]) =
     (Inr exCombinedAB, (exContract [exA, exB])\<lparr>combined := Some exCombinedAB\<rparr>)"
  by (simp add: ex_defs contract_defs)

lemmas format_defs = exFormat_def validProjectStrings_def validPledgeStrings_def
  ValidString_def Project_Serialize_def Project_calculateID_def Pledge_Serialize_def
  Pledge_calculateID_def

lemmas float_defs = f64_to_u64_def f64_of_u64_def round53_def roundNearestEven_def
  scaledNum_def scaledDen_def compute_floorlog

lemma floorlog_Suc_0: "floorlog 2 (Suc 0) = 1"
  by (simp add: compute_floorlog)

text \<open>
  The three example pledges are what \<open>NewPledge\<close> builds from the matching UTXOs,
  once signed.
\<close>

lemma examples_from_NewPledge:
  "builtLike (NewPledge exFormat (\<lambda>f. 0) 0 exProject 100000000 [exUTXO 1 150000000]) exA"
  "builtLike (NewPledge exFormat (\<lambda>f. 0) 0 exProject 20000000 [exUTXO 2 30000000]) exB"
  "builtLike (NewPledge exFormat (\<lambda>f. 0) 0 exProject 50000000
                [exUTXO 3 30000000, exUTXO 3 30000000]) exDup"
  by (simp_all add: builtLike_def NewPledge_def MinPledgeAmount_def AddInputsFromUTXOs_def
      NewTransaction_def Project_Outputs_def GoalAmount_def Project_ID_def pledgeOutput_def
      pbInput_def inputFromUTXO_def AddOutput_def Pledge_calculateID_def Pledge_Serialize_def
      exFormat_def exProject_def exUTXO_def exScript_def exA_def exB_def exDup_def exPledge_def
      exInput_def Amount_def ProjectID_def pledgeInputs_def inputKey_def
      float_defs floorlog_Suc_0 Let_def)

subsection \<open>AddPledge\<close>

lemma lookupKey_buildInputMap:
  "lookupKey (buildInputMap ins m) k \<longleftrightarrow> k \<in> inputKey ` set ins \<or> lookupKey m k"
  by (induction ins arbitrary: m) (auto simp: lookupKey_def)

lemma anyInputIn_iff:
  "anyInputIn m ins \<longleftrightarrow> (\<exists>inp \<in> set ins. lookupKey m (inputKey inp))"
  by (induction ins) auto

lemma hasDuplicateInputs_Some:
  "tx p1 = Some t1 \<Longrightarrow> tx p2 = Some t2 \<Longrightarrow>
   hasDuplicateInputs p1 p2 =
     Inr (\<exists>i \<in> set (Inputs t1). \<exists>j \<in> set (Inputs t2). inputKey i = inputKey j)"
proof -
  assume t: "tx p1 = Some t1" "tx p2 = Some t2"
  have empty: "\<not> lookupKey Map.empty k" for k by (simp add: lookupKey_def)
  have "anyInputIn (buildInputMap (Inputs t1) Map.empty) (Inputs t2)
        \<longleftrightarrow> (\<exists>i \<in> set (Inputs t1). \<exists>j \<in> set (Inputs t2). inputKey i = inputKey j)"
    by (simp add: anyInputIn_iff lookupKey_buildInputMap empty image_iff) metis
  with t show ?thesis by (simp add: hasDuplicateInputs_def)
qed

lemma checkExisting_iff:
  assumes "\<forall>q \<in> set ps. tx q \<noteq> None" and "tx p \<noteq> None"
  shows "checkExisting ps p =
    (if reusesAcceptedInput ps p then Some DuplicateInputs else None)"
  using assms
proof (induction ps)
  case Nil
  then show ?case by (simp add: reusesAcceptedInput_def)
next
  case (Cons q ps)
  from Cons.prems obtain t1 t2 where t: "tx q = Some t1" "tx p = Some t2" by auto
  have rest: "\<forall>q \<in> set ps. tx q \<noteq> None" using Cons.prems by simp
  show ?case
    using Cons.IH [OF rest Cons.prems(2)] t
    by (simp add: hasDuplicateInputs_Some pledgeInputs_def reusesAcceptedInput_def)
qed

lemma checkSigned_None_iff:
  "checkSigned i ins = None \<longleftrightarrow>
   (\<forall>inp \<in> set ins. UnlockingScript inp \<noteq> None \<and> UnlockingScript inp \<noteq> Some [])"
  by (induction ins arbitrary: i) (auto split: option.splits)

lemma Validate_iff: "Validate p \<noteq> None \<longleftrightarrow> structurallyInvalid p"
proof (cases "tx p")
  case None
  then show ?thesis by (simp add: Validate_def structurallyInvalid_def)
next
  case (Some t)
  have "checkSigned 0 (Inputs t) \<noteq> None \<longleftrightarrow>
        (\<exists>inp \<in> set (Inputs t). UnlockingScript inp = None \<or> UnlockingScript inp = Some [])"
    by (simp add: checkSigned_None_iff)
  with Some show ?thesis by (simp add: Validate_def structurallyInvalid_def)
qed

text \<open>
  The invariant holds of a new contract, and the three operations keep it.
\<close>

lemma pledgesHaveTx_NewContract: "pledgesHaveTx (NewContract p)"
  by (simp add: pledgesHaveTx_def NewContract_def)

lemma pledgesHaveTx_AddPledge:
  assumes "pledgesHaveTx c"
  shows "pledgesHaveTx (snd (AddPledge c p))"
proof (cases "Validate p")
  case None
  then have "\<not> structurallyInvalid p" using Validate_iff [of p] by simp
  then have "tx p \<noteq> None" by (auto simp: structurallyInvalid_def split: option.splits)
  with assms None show ?thesis
    by (auto simp: AddPledge_def pledgesHaveTx_def split: option.splits)
next
  case (Some e)
  with assms show ?thesis by (simp add: AddPledge_def)
qed

lemma pledgesHaveTx_RemovePledge:
  assumes "pledgesHaveTx c"
  shows "pledgesHaveTx (snd (RemovePledge c pledgeID))"
proof (cases "findPledge 0 (pledges c) pledgeID")
  case None
  with assms show ?thesis by (simp add: RemovePledge_def)
next
  case (Some i)
  have "set (take i (pledges c) @ drop (Suc i) (pledges c)) \<subseteq> set (pledges c)"
    using set_take_subset [of i "pledges c"] set_drop_subset [of "Suc i" "pledges c"] by auto
  with assms Some show ?thesis
    by (auto simp: RemovePledge_def pledgesHaveTx_def)
qed

text \<open>
  Claim C5. On a contract whose accepted pledges all have a transaction,
  \<open>AddPledge\<close> returns an error exactly when the pledge names another project, or is
  structurally invalid (zero inputs, zero outputs, or an input with an empty
  authorization proof), or repeats a \<open>(sourceTxId, outputIndex)\<close> of an accepted
  pledge. When it returns an error the contract is unchanged; otherwise the pledge
  is appended after the pledges accepted before.
\<close>

theorem C5_AddPledge_rejects_iff:
  assumes "pledgesHaveTx c"
  shows "(fst (AddPledge c p) \<noteq> None \<longleftrightarrow>
            ProjectID p \<noteq> Project_ID (project c) \<or> structurallyInvalid p
            \<or> reusesAcceptedInput (pledges c) p)
         \<and> (fst (AddPledge c p) \<noteq> None \<longrightarrow> snd (AddPledge c p) = c)
         \<and> (fst (AddPledge c p) = None \<longrightarrow> pledges (snd (AddPledge c p)) = pledges c @ [p])"
proof (cases "ProjectID p \<noteq> Project_ID (project c)")
  case True
  then show ?thesis by (simp add: AddPledge_def)
next
  case same: False
  from assms have inv: "\<forall>q \<in> set (pledges c). tx q \<noteq> None"
    by (simp add: pledgesHaveTx_def)
  show ?thesis
  proof (cases "Validate p")
    case (Some e)
    then have "structurallyInvalid p" using Validate_iff [of p] by simp
    with same Some show ?thesis by (simp add: AddPledge_def)
  next
    case None
    then have valid: "\<not> structurallyInvalid p" using Validate_iff [of p] by simp
    then have txp: "tx p \<noteq> None"
      by (auto simp: structurallyInvalid_def split: option.splits)
    show ?thesis
      using same None valid checkExisting_iff [OF inv txp]
      by (simp add: AddPledge_def)
  qed
qed

text \<open>
  Claim C5, at the examples: with \<open>exA\<close> accepted, \<open>exB\<close> (other inputs) is appended
  and \<open>exA\<close> again (the same input) is refused, the contract unchanged.
\<close>

theorem C5_AddPledge_rejects_iff_witness:
  "pledgesHaveTx (exContract [exA])
   \<and> \<not> reusesAcceptedInput (pledges (exContract [exA])) exB
   \<and> fst (AddPledge (exContract [exA]) exB) = None
   \<and> pledges (snd (AddPledge (exContract [exA]) exB)) = [exA, exB]
   \<and> reusesAcceptedInput (pledges (exContract [exA])) exA
   \<and> fst (AddPledge (exContract [exA]) exA) \<noteq> None
   \<and> snd (AddPledge (exContract [exA]) exA) = exContract [exA]"
proof -
  have inv: "pledgesHaveTx (exContract [exA])"
    by (simp add: pledgesHaveTx_def ex_defs)
  have a: "\<not> (ProjectID exB \<noteq> Project_ID (project (exContract [exA])))"
          "\<not> structurallyInvalid exB" "\<not> reusesAcceptedInput (pledges (exContract [exA])) exB"
    by (simp_all add: ex_defs ProjectID_def Project_ID_def structurallyInvalid_def
        reusesAcceptedInput_def pledgeInputs_def inputKey_def)
  have b: "reusesAcceptedInput (pledges (exContract [exA])) exA"
    by (simp add: ex_defs reusesAcceptedInput_def pledgeInputs_def inputKey_def)
  from C5_AddPledge_rejects_iff [OF inv, of exB] a
  have 1: "fst (AddPledge (exContract [exA]) exB) = None
           \<and> pledges (snd (AddPledge (exContract [exA]) exB)) = [exA, exB]"
    by (simp add: exContract_def)
  from C5_AddPledge_rejects_iff [OF inv, of exA] b
  have 2: "fst (AddPledge (exContract [exA]) exA) \<noteq> None
           \<and> snd (AddPledge (exContract [exA]) exA) = exContract [exA]"
    by blast
  from inv a b 1 2 show ?thesis by simp
qed

text \<open>
  Claim C10. \<open>AddPledge\<close> accepts a structurally valid pledge whose own inputs hold
  the same \<open>(sourceTxId, outputIndex)\<close> twice, on a new contract and on one whose
  accepted pledge uses another input: the duplicate check looks at the accepted
  pledges only.
\<close>

theorem C10_AddPledge_accepts_internal_duplicate:
  "Validate exDup = None
   \<and> map inputKey (pledgeInputs exDup) = [(replicate 32 3, 0), (replicate 32 3, 0)]
   \<and> \<not> distinct (map inputKey (pledgeInputs exDup))
   \<and> AddPledge (NewContract exProject) exDup = (None, exContract [exDup])
   \<and> AddPledge (exContract [exA]) exDup = (None, exContract [exA, exDup])"
  by (simp add: ex_defs contract_defs pledgeInputs_def)

subsection \<open>Combine\<close>

lemma sumAmounts_eq: "sumAmounts acc ps = acc + sum_list (map Amount ps)"
  by (induction ps arbitrary: acc) (simp_all add: add.assoc)

lemma gatherInputs_eq:
  "gatherInputs ps t v =
     (if \<forall>q \<in> set ps. tx q \<noteq> None
      then Inr (t\<lparr>Inputs := Inputs t @ concat (map pledgeInputs ps)\<rparr>, sumAmounts v ps)
      else Inl NilPointer)"
  by (induction ps arbitrary: t v)
     (auto simp: Pledge_Transaction_def pledgeInputs_def split: option.splits)

lemma addOutputs_eq:
  "addOutputs outs t v = (t\<lparr>Outputs := Outputs t @ outs\<rparr>, v + sum_list (map Satoshis outs))"
  by (induction outs arbitrary: t v) (simp_all add: AddOutput_def add.assoc)

lemma addChange_Inputs: "Inputs (addChange t a b) = Inputs t"
  by (simp add: addChange_def Let_def split: list.splits)

lemma addChange_scripts:
  "map LockingScript (Outputs (addChange t a b)) = map LockingScript (Outputs t)"
  by (simp add: addChange_def Let_def split: list.splits)

lemma addChange_length: "length (Outputs (addChange t a b)) = length (Outputs t)"
  by (simp add: addChange_def Let_def split: list.splits)

lemma addChange_tl: "tl (Outputs (addChange t a b)) = tl (Outputs t)"
  by (simp add: addChange_def Let_def split: list.splits)

lemma addChange_none: "\<not> a > b \<Longrightarrow> addChange t a b = t"
  by (simp add: addChange_def)

lemma addChange_amounts:
  "map Satoshis (Outputs (addChange t a b)) =
     (if a > b then
        (case map Satoshis (Outputs t) of [] \<Rightarrow> [] | x # rest \<Rightarrow> (x + (a - b)) # rest)
      else map Satoshis (Outputs t))"
  by (simp add: addChange_def Let_def split: list.splits)

text \<open>What \<open>Combine\<close> returns, case by case.\<close>

lemma Combine_not_reached:
  "\<not> CanClaim c \<Longrightarrow>
   Combine c = (Inl (GoalNotReached (TotalPledged c) (GoalAmount (project c))), c)"
  by (simp add: Combine_def)

lemma Combine_nil:
  "CanClaim c \<Longrightarrow> \<not> pledgesHaveTx c \<Longrightarrow> Combine c = (Inl NilPointer, c)"
  unfolding pledgesHaveTx_def by (auto simp: Combine_def gatherInputs_eq)

lemma Combine_no_outputs:
  "CanClaim c \<Longrightarrow> pledgesHaveTx c \<Longrightarrow> Project_Outputs (project c) = Inl e \<Longrightarrow>
   Combine c = (Inl (OutputsFailed e), c)"
  unfolding pledgesHaveTx_def by (auto simp: Combine_def gatherInputs_eq)

lemma Combine_success:
  assumes "CanClaim c" "pledgesHaveTx c" "Project_Outputs (project c) = Inr outs"
  shows "Combine c = (Inr (combinedOf c), c\<lparr>combined := Some (combinedOf c)\<rparr>)"
  using assms unfolding pledgesHaveTx_def
  by (auto simp: Combine_def gatherInputs_eq addOutputs_eq NewTransaction_def
      combinedOf_def payoutOutputs_def TotalPledged_def Let_def)

lemma Combine_Inr_D:
  assumes "fst (Combine c) = Inr t"
  shows "CanClaim c \<and> pledgesHaveTx c
         \<and> Project_Outputs (project c) = Inr (payoutOutputs (project c))
         \<and> t = combinedOf c \<and> snd (Combine c) = c\<lparr>combined := Some t\<rparr>"
proof -
  have 1: "CanClaim c" using assms Combine_not_reached [of c] by (cases "CanClaim c") auto
  have 2: "pledgesHaveTx c" using assms 1 Combine_nil [of c] by (cases "pledgesHaveTx c") auto
  obtain outs where 3: "Project_Outputs (project c) = Inr outs"
    using assms 1 2 Combine_no_outputs [of c] by (cases "Project_Outputs (project c)") auto
  from Combine_success [OF 1 2 3] assms 1 2 3 show ?thesis
    by (simp add: payoutOutputs_def)
qed

lemma pledgesHaveTx_Combine:
  "pledgesHaveTx c \<Longrightarrow> pledgesHaveTx (snd (Combine c))"
proof (cases "fst (Combine c)")
  case (Inl e)
  assume inv: "pledgesHaveTx c"
  have "snd (Combine c) = c"
  proof (cases "CanClaim c")
    case False
    then show ?thesis by (simp add: Combine_not_reached)
  next
    case True
    with inv Inl show ?thesis
      by (cases "Project_Outputs (project c)") (simp_all add: Combine_no_outputs Combine_success)
  qed
  with inv show ?thesis by simp
next
  case (Inr t)
  assume "pledgesHaveTx c"
  with Combine_Inr_D [OF Inr] show ?thesis by (simp add: pledgesHaveTx_def)
qed

lemma length_concat_sum: "length (concat xss) = sum_list (map length xss)"
  by (induction xss) simp_all

text \<open>
  Claim C1 fails as stated: the outputs of the combined transaction are not always
  exactly the payout outputs. With \<open>exA\<close> and \<open>exB\<close> accepted the total pledged is
  120000000 against payout outputs of 100000000, \<open>Combine\<close> succeeds, and the one
  output of its transaction carries 120000000: the count is the payout count, the
  output is not the payout output.
\<close>

theorem C1_Combine_outputs_counterexample:
  "fst (Combine (exContract [exA, exB])) = Inr exCombinedAB
   \<and> Outputs exCombinedAB \<noteq> payoutOutputs (project (exContract [exA, exB]))
   \<and> length (Outputs exCombinedAB) = length (payoutOutputs (project (exContract [exA, exB])))"
  by (simp add: ex_Combine_AB) (simp add: ex_defs payoutOutputs_def Project_Outputs_def)

text \<open>
  Claim C1, amended. \<open>Combine\<close> fails with the goal-not-reached error, carrying the
  total pledged and the goal amount and leaving the contract as it was, if and only
  if the total pledged is below the goal; on a contract whose pledges have
  transactions and whose project has details it succeeds in every other case. When
  it succeeds, the inputs of the returned transaction are the accepted pledges'
  inputs concatenated in insertion order (so their number is the sum of the
  pledges' input counts); its outputs are the project's payout outputs in order,
  as many, with the same locking scripts and, from the second output on, the same
  amounts, and they are exactly the payout outputs when the total pledged does not
  exceed the payout total; and the transaction is cached as \<open>combined\<close>.
\<close>

theorem C1_Combine_amended:
  "((\<exists>total goal. fst (Combine c) = Inl (GoalNotReached total goal))
      \<longleftrightarrow> TotalPledged c < GoalAmount (project c))
   \<and> (TotalPledged c < GoalAmount (project c) \<longrightarrow>
        Combine c = (Inl (GoalNotReached (TotalPledged c) (GoalAmount (project c))), c))
   \<and> (pledgesHaveTx c \<and> pb_Details (project_pb (project c)) \<noteq> None \<longrightarrow>
        ((\<exists>t'. fst (Combine c) = Inr t') \<longleftrightarrow> \<not> TotalPledged c < GoalAmount (project c)))
   \<and> (fst (Combine c) = Inr t \<longrightarrow>
        Inputs t = concat (map pledgeInputs (pledges c))
      \<and> length (Inputs t) = sum_list (map (\<lambda>p. length (pledgeInputs p)) (pledges c))
      \<and> length (Outputs t) = length (payoutOutputs (project c))
      \<and> map LockingScript (Outputs t) = map LockingScript (payoutOutputs (project c))
      \<and> map Satoshis (tl (Outputs t)) = map Satoshis (tl (payoutOutputs (project c)))
      \<and> (TotalPledged c \<le> sum_list (map Satoshis (payoutOutputs (project c))) \<longrightarrow>
           Outputs t = payoutOutputs (project c))
      \<and> combined (snd (Combine c)) = Some t)"
proof (intro conjI impI)
  show "(\<exists>total goal. fst (Combine c) = Inl (GoalNotReached total goal))
      \<longleftrightarrow> TotalPledged c < GoalAmount (project c)"
  proof (cases "CanClaim c")
    case False
    then show ?thesis using Combine_not_reached [of c] by (simp add: CanClaim_def not_le)
  next
    case can: True
    have "\<not> (\<exists>total goal. fst (Combine c) = Inl (GoalNotReached total goal))"
    proof (cases "pledgesHaveTx c")
      case False
      with can show ?thesis by (simp add: Combine_nil)
    next
      case True
      with can show ?thesis
        by (cases "Project_Outputs (project c)") (simp_all add: Combine_no_outputs Combine_success)
    qed
    with can show ?thesis by (simp add: CanClaim_def not_less)
  qed
next
  assume "TotalPledged c < GoalAmount (project c)"
  then show "Combine c = (Inl (GoalNotReached (TotalPledged c) (GoalAmount (project c))), c)"
    by (simp add: Combine_not_reached CanClaim_def not_le)
next
  assume inv: "pledgesHaveTx c \<and> pb_Details (project_pb (project c)) \<noteq> None"
  then obtain outs where outs: "Project_Outputs (project c) = Inr outs"
    by (auto simp: Project_Outputs_def)
  show "(\<exists>t'. fst (Combine c) = Inr t') \<longleftrightarrow> \<not> TotalPledged c < GoalAmount (project c)"
  proof (cases "CanClaim c")
    case False
    then show ?thesis using Combine_not_reached [of c] by (simp add: CanClaim_def not_le)
  next
    case True
    with inv outs show ?thesis by (simp add: Combine_success CanClaim_def not_less)
  qed
next
  assume ok: "fst (Combine c) = Inr t"
  note d = Combine_Inr_D [OF ok]
  from d have t: "t = combinedOf c" by simp
  show "Inputs t = concat (map pledgeInputs (pledges c))"
    by (simp add: t combinedOf_def addChange_Inputs)
  then show "length (Inputs t) = sum_list (map (\<lambda>p. length (pledgeInputs p)) (pledges c))"
    by (simp add: length_concat_sum comp_def)
  show "length (Outputs t) = length (payoutOutputs (project c))"
    by (simp add: t combinedOf_def addChange_length)
  show "map LockingScript (Outputs t) = map LockingScript (payoutOutputs (project c))"
    by (simp add: t combinedOf_def addChange_scripts)
  show "map Satoshis (tl (Outputs t)) = map Satoshis (tl (payoutOutputs (project c)))"
    by (simp add: t combinedOf_def addChange_tl)
  show "combined (snd (Combine c)) = Some t"
    using d by simp
  {
    assume "TotalPledged c \<le> sum_list (map Satoshis (payoutOutputs (project c)))"
    then show "Outputs t = payoutOutputs (project c)"
      by (simp add: t combinedOf_def addChange_none not_less)
  }
qed

text \<open>
  Claim C1, amended, at the examples: with only \<open>exB\<close> accepted the goal is not
  reached and the error carries 20000000 and 100000000; with \<open>exA\<close> accepted the
  total equals the goal and the combined transaction has the pledge's input and
  exactly the payout outputs.
\<close>

theorem C1_Combine_amended_witness:
  "TotalPledged (exContract [exB]) < GoalAmount (project (exContract [exB]))
   \<and> Combine (exContract [exB]) = (Inl (GoalNotReached 20000000 100000000), exContract [exB])
   \<and> pledgesHaveTx (exContract [exA])
   \<and> pb_Details (project_pb (project (exContract [exA]))) \<noteq> None
   \<and> fst (Combine (exContract [exA])) = Inr exCombinedA
   \<and> Inputs exCombinedA = [exInput 1 150000000]
   \<and> Outputs exCombinedA = payoutOutputs exProject
   \<and> combined (snd (Combine (exContract [exA]))) = Some exCombinedA"
proof -
  have low: "TotalPledged (exContract [exB]) < GoalAmount (project (exContract [exB]))"
    by (simp add: ex_defs contract_defs)
  have ok: "fst (Combine (exContract [exA])) = Inr exCombinedA"
    by (simp add: ex_Combine_A)
  have inv: "pledgesHaveTx (exContract [exA])
             \<and> pb_Details (project_pb (project (exContract [exA]))) \<noteq> None"
    by (simp add: pledgesHaveTx_def ex_defs)
  from C1_Combine_amended [of "exContract [exB]"] low
  have 1: "Combine (exContract [exB]) = (Inl (GoalNotReached 20000000 100000000), exContract [exB])"
    by (simp add: ex_defs contract_defs)
  from C1_Combine_amended [of "exContract [exA]" exCombinedA] ok
  have 2: "Inputs exCombinedA = concat (map pledgeInputs (pledges (exContract [exA])))
     \<and> (TotalPledged (exContract [exA])
          \<le> sum_list (map Satoshis (payoutOutputs (project (exContract [exA])))) \<longrightarrow>
           Outputs exCombinedA = payoutOutputs (project (exContract [exA])))
     \<and> combined (snd (Combine (exContract [exA]))) = Some exCombinedA"
    by blast
  have 3: "TotalPledged (exContract [exA])
             \<le> sum_list (map Satoshis (payoutOutputs (project (exContract [exA]))))"
    by (simp add: ex_defs contract_defs payoutOutputs_def)
  from 2 3 have 4: "Outputs exCombinedA = payoutOutputs exProject"
    by (simp add: exContract_def)
  from 2 have 5: "Inputs exCombinedA = [exInput 1 150000000]"
    by (simp add: exContract_def exA_def exPledge_def pledgeInputs_def)
  from low 1 inv ok 2 4 5 show ?thesis by blast
qed

text \<open>
  Claim C2 fails as stated: the surplus is not taken from the input values. The
  input of \<open>exA\<close> is worth 150000000 and the pledge is 100000000, the payout total.
  By the claim the surplus would be 50000000 and the output 150000000; \<open>Combine\<close>
  adds the pledge amounts instead, finds no surplus and leaves the output at
  100000000.
\<close>

theorem C2_Combine_surplus_counterexample:
  "fst (Combine (exContract [exA])) = Inr exCombinedA
   \<and> inputValues exCombinedA = 150000000
   \<and> map Satoshis (payoutOutputs (project (exContract [exA]))) = [100000000]
   \<and> map Satoshis (Outputs exCombinedA) = [100000000]
   \<and> map Satoshis (Outputs exCombinedA) \<noteq> [100000000 + (inputValues exCombinedA - 100000000)]"
  by (simp add: ex_Combine_A)
     (simp add: ex_defs payoutOutputs_def Project_Outputs_def inputValues_def inputValue_def)

text \<open>
  Claim C2, amended. When \<open>Combine\<close> succeeds, the surplus is the total pledged (the
  sum of the accepted pledges' amounts, in \<open>uint64\<close> arithmetic) minus the sum of the
  payout output amounts; if the total pledged is the greater, the whole surplus is
  added to the first payout output's amount; the other outputs keep their amounts,
  and so does the first when there is no surplus.
\<close>

theorem C2_Combine_surplus_amended:
  assumes "fst (Combine c) = Inr t"
  shows "map Satoshis (Outputs t) =
           (if TotalPledged c > sum_list (map Satoshis (payoutOutputs (project c))) then
              (case map Satoshis (payoutOutputs (project c)) of
                 [] \<Rightarrow> []
               | first # rest \<Rightarrow>
                   (first + (TotalPledged c - sum_list (map Satoshis (payoutOutputs (project c)))))
                   # rest)
            else map Satoshis (payoutOutputs (project c)))
         \<and> TotalPledged c = sum_list (map Amount (pledges c))"
proof -
  from Combine_Inr_D [OF assms] have t: "t = combinedOf c" by simp
  have total: "TotalPledged c = sum_list (map Amount (pledges c))"
    by (simp add: TotalPledged_def sumAmounts_eq)
  have "map Satoshis (Outputs t) =
           (if TotalPledged c > sum_list (map Satoshis (payoutOutputs (project c))) then
              (case map Satoshis (payoutOutputs (project c)) of
                 [] \<Rightarrow> []
               | first # rest \<Rightarrow>
                   (first + (TotalPledged c - sum_list (map Satoshis (payoutOutputs (project c)))))
                   # rest)
            else map Satoshis (payoutOutputs (project c)))"
    by (simp add: t combinedOf_def addChange_amounts)
  with total show ?thesis by blast
qed

text \<open>
  Claim C2, amended, at the examples: \<open>exA\<close> and \<open>exB\<close> pledge 120000000 together,
  the payout is 100000000, and the output of the combined transaction is 120000000.
\<close>

theorem C2_Combine_surplus_amended_witness:
  "fst (Combine (exContract [exA, exB])) = Inr exCombinedAB
   \<and> TotalPledged (exContract [exA, exB]) = 120000000
   \<and> map Satoshis (payoutOutputs exProject) = [100000000]
   \<and> map Satoshis (Outputs exCombinedAB) = [120000000]"
proof -
  have ok: "fst (Combine (exContract [exA, exB])) = Inr exCombinedAB"
    by (simp add: ex_Combine_AB)
  have tp: "TotalPledged (exContract [exA, exB]) = 120000000"
    by (simp add: ex_defs contract_defs)
  have po: "map Satoshis (payoutOutputs exProject) = [100000000]"
    by (simp add: ex_defs payoutOutputs_def Project_Outputs_def)
  have pr: "project (exContract [exA, exB]) = exProject" by (simp add: exContract_def)
  from C2_Combine_surplus_amended [OF ok]
  have "map Satoshis (Outputs exCombinedAB) = [120000000]"
    unfolding pr po tp by simp
  with ok tp po show ?thesis by blast
qed

subsection \<open>The cached transaction\<close>

text \<open>
  Claim C4 fails as stated: neither \<open>AddPledge\<close> nor \<open>RemovePledge\<close> touches the
  cached transaction. After \<open>exA\<close> is accepted and combined, \<open>exB\<close> is accepted and
  the contract still returns the transaction built from \<open>exA\<close> alone; and after
  \<open>exA\<close> is removed, leaving no pledge, it still returns that transaction.
\<close>

theorem C4_cache_invalidation_counterexample:
  "snd (Combine (snd (AddPledge (NewContract exProject) exA)))
     = (exContract [exA])\<lparr>combined := Some exCombinedA\<rparr>
   \<and> fst (AddPledge ((exContract [exA])\<lparr>combined := Some exCombinedA\<rparr>) exB) = None
   \<and> Contract_Transaction (snd (AddPledge ((exContract [exA])\<lparr>combined := Some exCombinedA\<rparr>) exB))
       = Some exCombinedA
   \<and> fst (RemovePledge ((exContract [exA])\<lparr>combined := Some exCombinedA\<rparr>) ''pledge-a'') = None
   \<and> pledges (snd (RemovePledge ((exContract [exA])\<lparr>combined := Some exCombinedA\<rparr>) ''pledge-a'')) = []
   \<and> Contract_Transaction
        (snd (RemovePledge ((exContract [exA])\<lparr>combined := Some exCombinedA\<rparr>) ''pledge-a''))
       = Some exCombinedA"
  by (simp add: ex_AddPledge_A ex_Combine_A) (simp add: ex_defs contract_defs)

text \<open>
  Claim C4, amended. \<open>AddPledge\<close> and \<open>RemovePledge\<close>, successful or not, leave the
  cached combined transaction as it is: what \<open>Transaction\<close> returned before the call
  it returns after it. Only \<open>Combine\<close> writes the cache.
\<close>

theorem C4_cache_kept_amended:
  "Contract_Transaction (snd (AddPledge c p)) = Contract_Transaction c
   \<and> Contract_Transaction (snd (RemovePledge c pledgeID)) = Contract_Transaction c"
  by (simp add: Contract_Transaction_def AddPledge_def RemovePledge_def split: option.splits)

subsection \<open>NewPledge\<close>

lemma MinPledgeAmount_pos: "MinPledgeAmount p > 0"
  by (simp add: MinPledgeAmount_def split: option.splits)

lemma sumUntil_short:
  "unat acc + sum_list (map (\<lambda>u. unat (UTXOSatoshis u)) us) < unat amt \<Longrightarrow>
   unat (sumUntil acc amt us) = unat acc + sum_list (map (\<lambda>u. unat (UTXOSatoshis u)) us)"
proof (induction us arbitrary: acc)
  case Nil
  then show ?case by simp
next
  case (Cons u us)
  let ?acc = "acc + UTXOSatoshis u"
  have bound: "unat amt < 2 ^ 64" using unsigned_less [of amt] by simp
  from Cons.prems have small: "unat acc + unat (UTXOSatoshis u) < 2 ^ 64"
    using bound by simp
  have eq: "unat ?acc = unat acc + unat (UTXOSatoshis u)"
    using small unat_add_lem [of acc "UTXOSatoshis u"] by simp
  with Cons.prems have less: "\<not> ?acc \<ge> amt"
    by (simp add: word_le_nat_alt)
  from Cons.prems eq have "unat ?acc + sum_list (map (\<lambda>u. unat (UTXOSatoshis u)) us) < unat amt"
    by simp
  from Cons.IH [OF this] eq less show ?case
    by (simp add: Let_def)
qed

text \<open>
  Claim C7 fails as stated: the insufficient-funds error does not come whenever the
  inputs add up to less than the amount. For a pledge of 5000 to the example
  project (minimum 10000) with no inputs at all, the sum 0 is below 5000, and
  \<open>NewPledge\<close> fails with the below-minimum error, not with the insufficient-funds
  error: the minimum is checked first.
\<close>

theorem C7_NewPledge_errors_counterexample:
  "sum_list (map (\<lambda>u. unat (UTXOSatoshis u)) []) < unat (5000 :: u64)
   \<and> NewPledge exFormat (\<lambda>f. 0) 0 exProject 5000 [] = Inl (BelowMinimum 5000 10000)
   \<and> NewPledge exFormat (\<lambda>f. 0) 0 exProject 5000 [] \<noteq> Inl (InsufficientFunds 0 5000)"
  by (simp add: NewPledge_def MinPledgeAmount_def exProject_def)

text \<open>
  Claim C7, amended. \<open>NewPledge\<close> fails with the below-minimum error, before it looks
  at any input, whenever the amount is below the project's minimum pledge. For an
  amount at or above the minimum it fails with the insufficient-funds error,
  carrying the available total (the sum of all the inputs' values) and the required
  amount, whenever the inputs' values add up to less than the amount. Either way it
  fails whenever the inputs add up to less than the amount.
\<close>

theorem C7_NewPledge_errors:
  "(amt < MinPledgeAmount proj \<longrightarrow>
      NewPledge fmt conv now proj amt utxos = Inl (BelowMinimum amt (MinPledgeAmount proj)))
   \<and> (\<not> amt < MinPledgeAmount proj
        \<and> sum_list (map (\<lambda>u. unat (UTXOSatoshis u)) utxos) < unat amt \<longrightarrow>
      NewPledge fmt conv now proj amt utxos
        = Inl (InsufficientFunds (of_nat (sum_list (map (\<lambda>u. unat (UTXOSatoshis u)) utxos))) amt))
   \<and> (sum_list (map (\<lambda>u. unat (UTXOSatoshis u)) utxos) < unat amt \<longrightarrow>
        (\<exists>e. NewPledge fmt conv now proj amt utxos = Inl e))"
proof -
  have low: "NewPledge fmt conv now proj amt utxos = Inl (BelowMinimum amt (MinPledgeAmount proj))"
    if "amt < MinPledgeAmount proj"
    using that by (simp add: NewPledge_def)
  have short: "NewPledge fmt conv now proj amt utxos
        = Inl (InsufficientFunds (of_nat (sum_list (map (\<lambda>u. unat (UTXOSatoshis u)) utxos))) amt)"
    if "\<not> amt < MinPledgeAmount proj"
      and "sum_list (map (\<lambda>u. unat (UTXOSatoshis u)) utxos) < unat amt"
  proof -
    from that(2) have u: "unat (sumUntil 0 amt utxos)
        = sum_list (map (\<lambda>u. unat (UTXOSatoshis u)) utxos)"
      using sumUntil_short [of 0 utxos amt] by simp
    have "sumUntil 0 amt utxos = of_nat (unat (sumUntil 0 amt utxos))"
      by simp
    then have w: "sumUntil 0 amt utxos
        = of_nat (sum_list (map (\<lambda>u. unat (UTXOSatoshis u)) utxos))"
      by (simp only: u)
    from u that(2) have "sumUntil 0 amt utxos < amt"
      by (simp add: word_less_nat_alt)
    with that(1) w show ?thesis
      by (simp add: NewPledge_def AddInputsFromUTXOs_def Let_def)
  qed
  show ?thesis
  proof (cases "amt < MinPledgeAmount proj")
    case True
    with low [OF True] show ?thesis by simp
  next
    case enough: False
    show ?thesis
    proof (cases "sum_list (map (\<lambda>u. unat (UTXOSatoshis u)) utxos) < unat amt")
      case True
      with short [OF enough True] enough show ?thesis by simp
    next
      case False
      with enough show ?thesis by simp
    qed
  qed
qed

text \<open>
  Claim C7, amended, at the package's test values: against the example project (minimum
  10000) and one UTXO worth 50000000, a pledge of 5000 is below the minimum and a
  pledge of 60000000 finds 50000000 where it needs 60000000.
\<close>

theorem C7_NewPledge_errors_witness:
  "5000 < MinPledgeAmount exProject
   \<and> NewPledge exFormat (\<lambda>f. 0) 0 exProject 5000 [exUTXO 1 50000000]
       = Inl (BelowMinimum 5000 10000)
   \<and> \<not> 60000000 < MinPledgeAmount exProject
   \<and> sum_list (map (\<lambda>u. unat (UTXOSatoshis u)) [exUTXO 1 50000000]) < unat (60000000 :: u64)
   \<and> NewPledge exFormat (\<lambda>f. 0) 0 exProject 60000000 [exUTXO 1 50000000]
       = Inl (InsufficientFunds 50000000 60000000)"
proof -
  have m: "MinPledgeAmount exProject = 10000"
    by (simp add: MinPledgeAmount_def exProject_def)
  from C7_NewPledge_errors [of 5000 exProject exFormat "\<lambda>f. 0" 0 "[exUTXO 1 50000000]"]
  have 1: "NewPledge exFormat (\<lambda>f. 0) 0 exProject 5000 [exUTXO 1 50000000]
       = Inl (BelowMinimum 5000 10000)"
    by (simp add: m)
  from C7_NewPledge_errors [of 60000000 exProject exFormat "\<lambda>f. 0" 0 "[exUTXO 1 50000000]"]
  have 2: "NewPledge exFormat (\<lambda>f. 0) 0 exProject 60000000 [exUTXO 1 50000000]
       = Inl (InsufficientFunds 50000000 60000000)"
    by (simp add: m exUTXO_def)
  from 1 2 show ?thesis by (simp add: m exUTXO_def)
qed

lemma sumUntil_first_fit:
  "sumUntil acc amt us \<ge> amt \<Longrightarrow> us \<noteq> [] \<Longrightarrow>
   \<exists>k. 0 < k \<and> k \<le> length us
     \<and> sumUntil acc amt us = acc + sum_list (map UTXOSatoshis (take k us))
     \<and> (\<forall>j. 0 < j \<and> j < k \<longrightarrow> acc + sum_list (map UTXOSatoshis (take j us)) < amt)"
proof (induction us arbitrary: acc)
  case Nil
  then show ?case by simp
next
  case (Cons u us)
  let ?acc = "acc + UTXOSatoshis u"
  show ?case
  proof (cases "?acc \<ge> amt")
    case True
    then have "sumUntil acc amt (u # us) = acc + sum_list (map UTXOSatoshis (take 1 (u # us)))"
      by (simp add: Let_def)
    then show ?thesis by (intro exI [of _ 1]) simp
  next
    case False
    then have step: "sumUntil acc amt (u # us) = sumUntil ?acc amt us"
      by (simp add: Let_def)
    with Cons.prems False have ne: "us \<noteq> []" by auto
    from Cons.prems step have "sumUntil ?acc amt us \<ge> amt" by simp
    from Cons.IH [OF this ne] obtain k where k: "0 < k" "k \<le> length us"
      "sumUntil ?acc amt us = ?acc + sum_list (map UTXOSatoshis (take k us))"
      "\<forall>j. 0 < j \<and> j < k \<longrightarrow> ?acc + sum_list (map UTXOSatoshis (take j us)) < amt"
      by blast
    have "\<forall>j. 0 < j \<and> j < Suc k \<longrightarrow> acc + sum_list (map UTXOSatoshis (take j (u # us))) < amt"
    proof (intro allI impI)
      fix j assume j: "0 < j \<and> j < Suc k"
      then obtain j' where j': "j = Suc j'" by (cases j) auto
      show "acc + sum_list (map UTXOSatoshis (take j (u # us))) < amt"
      proof (cases "j' = 0")
        case True
        with j' False show ?thesis by (simp add: not_le)
      next
        case nz: False
        with j j' k(4) have "?acc + sum_list (map UTXOSatoshis (take j' us)) < amt" by simp
        with j' show ?thesis by (simp add: add.assoc)
      qed
    qed
    with k step show ?thesis
      by (intro exI [of _ "Suc k"]) (simp add: add.assoc)
  qed
qed

lemma foldl_AddOutput: "foldl AddOutput t outs = t\<lparr>Outputs := Outputs t @ outs\<rparr>"
  by (induction outs arbitrary: t) (simp_all add: AddOutput_def)

lemma NewPledge_Inr_D:
  assumes "NewPledge fmt conv now proj amt utxos = Inr p"
  shows "\<not> amt < MinPledgeAmount proj \<and> sumUntil 0 amt utxos \<ge> amt
         \<and> Amount p = amt \<and> ProjectID p = Project_ID proj
         \<and> tx p = Some \<lparr>Version = 1, Inputs = map inputFromUTXO utxos,
              Outputs = map (pledgeOutput conv
                  (f64_div (f64_of_u64 amt) (f64_of_u64 (GoalAmount proj)))) (payoutOutputs proj),
              LockTime = 0\<rparr>"
proof -
  have 1: "\<not> amt < MinPledgeAmount proj"
    using assms by (cases "amt < MinPledgeAmount proj") (simp_all add: NewPledge_def)
  have 2: "\<not> sumUntil 0 amt utxos < amt"
    using assms 1 by (cases "sumUntil 0 amt utxos < amt")
      (simp_all add: NewPledge_def AddInputsFromUTXOs_def Let_def)
  obtain outs where 3: "Project_Outputs proj = Inr outs"
    using assms 1 2 by (cases "Project_Outputs proj")
      (simp_all add: NewPledge_def AddInputsFromUTXOs_def Let_def)
  from assms 1 2 3 have "p = \<lparr>pledge_pb = \<lparr>pb_ProjectId = Project_ID proj,
                pb_Inputs = map pbInput (map inputFromUTXO utxos),
                pb_PledgeTime = now, pb_PledgeMemo = [],
                pb_RefundAddress = [], pb_Contact = None\<rparr>,
           pledge_id = pledge_id p, amount = amt,
           tx = Some \<lparr>Version = 1, Inputs = map inputFromUTXO utxos,
              Outputs = map (pledgeOutput conv
                  (f64_div (f64_of_u64 amt) (f64_of_u64 (GoalAmount proj)))) outs,
              LockTime = 0\<rparr>\<rparr>"
    by (simp add: NewPledge_def AddInputsFromUTXOs_def Let_def NewTransaction_def foldl_AddOutput)
      (cases p, auto)
  then have "Amount p = amt \<and> ProjectID p = Project_ID proj
         \<and> tx p = Some \<lparr>Version = 1, Inputs = map inputFromUTXO utxos,
              Outputs = map (pledgeOutput conv
                  (f64_div (f64_of_u64 amt) (f64_of_u64 (GoalAmount proj)))) outs,
              LockTime = 0\<rparr>"
    unfolding Amount_def ProjectID_def
    by (metis Pledge.select_convs(1,3,4) pb_Pledge.select_convs(1))
  with 1 2 3 show ?thesis by (simp add: payoutOutputs_def not_less)
qed

lemma ex_NewPledge:
  "NewPledge exFormat (\<lambda>f. 0) 0 exProject 50000 exUTXOs = Inr exNewPledge"
  by (simp add: NewPledge_def MinPledgeAmount_def AddInputsFromUTXOs_def NewTransaction_def
      Project_Outputs_def GoalAmount_def Project_ID_def pledgeOutput_def pbInput_def
      inputFromUTXO_def AddOutput_def Pledge_calculateID_def Pledge_Serialize_def
      exFormat_def exProject_def exUTXOs_def exUTXO_def exNewPledge_def exScript_def
      float_defs floorlog_Suc_0 Let_def)

text \<open>
  Claim C6 fails as stated: the inputs of the created pledge are not the shortest
  sufficient prefix. For a pledge of 50000 out of two UTXOs worth 60000 and 70000
  the first UTXO alone reaches the amount, and the pledge has both as inputs.
\<close>

theorem C6_NewPledge_inputs_counterexample:
  "NewPledge exFormat (\<lambda>f. 0) 0 exProject 50000 exUTXOs = Inr exNewPledge
   \<and> exUTXOs = [exUTXO 1 60000, exUTXO 2 70000]
   \<and> pledgeInputs exNewPledge = [inputFromUTXO (exUTXO 1 60000), inputFromUTXO (exUTXO 2 70000)]
   \<and> 50000 \<le> UTXOSatoshis (exUTXO 1 60000)
   \<and> pledgeInputs exNewPledge \<noteq> map inputFromUTXO (take 1 exUTXOs)"
  by (simp add: ex_NewPledge) (simp add: exNewPledge_def exUTXOs_def exUTXO_def pledgeInputs_def)

text \<open>
  Claim C6, amended. \<open>NewPledge\<close> walks the available inputs in the caller's order,
  adding up their values until the total reaches the amount, only to decide whether
  the funds suffice: when it succeeds there is a shortest non-empty prefix whose
  total (in \<open>uint64\<close> arithmetic) reaches the amount. The inputs of the created
  pledge are all the available inputs, in the caller's order, those after that
  prefix included.
\<close>

theorem C6_NewPledge_inputs_amended:
  assumes "NewPledge fmt conv now proj amt utxos = Inr p"
  shows "pledgeInputs p = map inputFromUTXO utxos
         \<and> length (pledgeInputs p) = length utxos
         \<and> map inputKey (pledgeInputs p) = map (\<lambda>u. (TxID u, Vout u)) utxos
         \<and> (\<exists>k. 0 < k \<and> k \<le> length utxos
               \<and> amt \<le> sum_list (map UTXOSatoshis (take k utxos))
               \<and> (\<forall>j. 0 < j \<and> j < k \<longrightarrow> sum_list (map UTXOSatoshis (take j utxos)) < amt))"
proof -
  note d = NewPledge_Inr_D [OF assms]
  from d have ins: "pledgeInputs p = map inputFromUTXO utxos"
    by (simp add: pledgeInputs_def)
  have keys: "map inputKey (map inputFromUTXO utxos) = map (\<lambda>u. (TxID u, Vout u)) utxos"
    by (simp add: inputKey_def inputFromUTXO_def)
  from d have "amt > 0" using MinPledgeAmount_pos [of proj] by (auto simp: not_less)
  with d have ne: "utxos \<noteq> []" by auto
  from d have "sumUntil 0 amt utxos \<ge> amt" by simp
  from sumUntil_first_fit [OF this ne] obtain k where k: "0 < k" "k \<le> length utxos"
      "sumUntil 0 amt utxos = 0 + sum_list (map UTXOSatoshis (take k utxos))"
      "\<forall>j. 0 < j \<and> j < k \<longrightarrow> 0 + sum_list (map UTXOSatoshis (take j utxos)) < amt"
    by blast
  with d have "0 < k \<and> k \<le> length utxos
               \<and> amt \<le> sum_list (map UTXOSatoshis (take k utxos))
               \<and> (\<forall>j. 0 < j \<and> j < k \<longrightarrow> sum_list (map UTXOSatoshis (take j utxos)) < amt)"
    by simp
  with ins keys show ?thesis by auto
qed

text \<open>
  Claim C6, amended, at the example: both UTXOs become inputs, in order.
\<close>

theorem C6_NewPledge_inputs_amended_witness:
  "NewPledge exFormat (\<lambda>f. 0) 0 exProject 50000 exUTXOs = Inr exNewPledge
   \<and> length (pledgeInputs exNewPledge) = 2
   \<and> map inputKey (pledgeInputs exNewPledge) = [(replicate 32 1, 0), (replicate 32 2, 0)]"
proof -
  from C6_NewPledge_inputs_amended [OF ex_NewPledge]
  have 1: "length (pledgeInputs exNewPledge) = length exUTXOs"
    and 2: "map inputKey (pledgeInputs exNewPledge) = map (\<lambda>u. (TxID u, Vout u)) exUTXOs"
    by blast+
  have 3: "length exUTXOs = 2"
    "map (\<lambda>u. (TxID u, Vout u)) exUTXOs = [(replicate 32 1, 0), (replicate 32 2, 0)]"
    by (simp_all add: exUTXOs_def exUTXO_def)
  from 1 2 3 ex_NewPledge show ?thesis by simp
qed

subsection \<open>LoadPledge\<close>

lemma loadInputs_Outputs: "loadInputs ins t = Inr t' \<Longrightarrow> Outputs t' = Outputs t"
  by (induction ins arbitrary: t) (auto split: option.splits)

text \<open>
  Claim C9. A pledge that \<open>LoadPledge\<close> parses has amount 0 and a transaction with
  no outputs; so \<open>Validate\<close> returns an error for it (no inputs, or no outputs), and
  \<open>AddPledge\<close> on any contract returns an error and leaves the contract as it was.
\<close>

theorem C9_LoadPledge_unusable:
  assumes "LoadPledge fmt data = Inr p"
  shows "Amount p = 0
         \<and> (\<exists>t. tx p = Some t \<and> Outputs t = [])
         \<and> (Validate p = Some NoInputs \<or> Validate p = Some NoOutputs)
         \<and> fst (AddPledge c p) \<noteq> None \<and> snd (AddPledge c p) = c"
proof -
  from assms obtain m t where m: "unmarshalPledge fmt data = Some m"
    and t: "loadInputs (pb_Inputs m) NewTransaction = Inr t"
    and p: "p = \<lparr>pledge_pb = m, pledge_id = Pledge_calculateID fmt
                   \<lparr>pledge_pb = m, pledge_id = [], amount = 0, tx = Some t\<rparr>,
                 amount = 0, tx = Some t\<rparr>"
    by (auto simp: LoadPledge_def Let_def split: option.splits sum.splits)
  from loadInputs_Outputs [OF t] have outs: "Outputs t = []"
    by (simp add: NewTransaction_def)
  from p have a: "Amount p = 0" and tx: "tx p = Some t" by (simp_all add: Amount_def)
  from tx outs have v: "Validate p = Some NoInputs \<or> Validate p = Some NoOutputs"
    by (simp add: Validate_def)
  then have "fst (AddPledge c p) \<noteq> None \<and> snd (AddPledge c p) = c"
    by (auto simp: AddPledge_def)
  with a tx outs v show ?thesis by blast
qed

lemma ex_Serialize_A: "Pledge_Serialize exFormat exA = (Inr (pledge_pb exA), None)"
  by (simp add: format_defs exA_def exPledge_def)

lemma ex_LoadPledge: "LoadPledge exFormat (Inr (pledge_pb exA)) = Inr exLoadedA"
  by (simp add: LoadPledge_def Pledge_Serialize_def Pledge_calculateID_def NewHash_def
      NewTransaction_def pbInput_def exFormat_def exA_def exPledge_def exInput_def
      exLoadedA_def Let_def)

text \<open>
  Claim C9, at the example: \<open>exA\<close> is valid; serialized and loaded again it has
  amount 0 and no outputs, and a new contract for its project refuses it.
\<close>

theorem C9_LoadPledge_unusable_witness:
  "Validate exA = None
   \<and> Pledge_Serialize exFormat exA = (Inr (pledge_pb exA), None)
   \<and> LoadPledge exFormat (Inr (pledge_pb exA)) = Inr exLoadedA
   \<and> Amount exLoadedA = 0
   \<and> Validate exLoadedA = Some NoOutputs
   \<and> AddPledge (NewContract exProject) exLoadedA
       = (Some (InvalidPledge NoOutputs), NewContract exProject)"
proof -
  from C9_LoadPledge_unusable [OF ex_LoadPledge, of "NewContract exProject"]
  have 1: "Amount exLoadedA = 0" "fst (AddPledge (NewContract exProject) exLoadedA) \<noteq> None"
    "snd (AddPledge (NewContract exProject) exLoadedA) = NewContract exProject"
    by simp_all
  have 2: "Validate exLoadedA = Some NoOutputs" "Validate exA = None"
    by (simp_all add: Validate_def exLoadedA_def exA_def exPledge_def exInput_def)
  have 3: "AddPledge (NewContract exProject) exLoadedA
       = (Some (InvalidPledge NoOutputs), NewContract exProject)"
    using 2 by (simp add: AddPledge_def ProjectID_def Project_ID_def NewContract_def
        exLoadedA_def exA_def exPledge_def exProject_def)
  from 1 2 3 ex_LoadPledge ex_Serialize_A show ?thesis by simp
qed

subsection \<open>Project persistence\<close>

lemma sumOutputAmounts_eq: "sumOutputAmounts acc outs = acc + sum_list (map pb_Amount outs)"
  by (induction outs arbitrary: acc) (simp_all add: add.assoc)

lemma LoadProject_goal:
  assumes "LoadProject fmt data = Inr q"
  shows "\<exists>m d. unmarshalProject fmt data = Some m \<and> pb_Details m = Some d \<and> project_pb q = m
           \<and> GoalAmount q = sum_list (map pb_Amount (pb_Outputs d))"
  using assms
  by (auto simp: LoadProject_def Let_def GoalAmount_def sumOutputAmounts_eq split: option.splits)

lemma ex_NewProject_bad:
  "NewProject exFormat exLedger 0 [CHR 0xFF] ''Test Description'' 100000000
     ''1NKNazRR5jKgGqELVHDK47JAZrqtAWWy5q'' = Inr exBadProject"
  by (simp add: NewProject_def exLedger_def exBadProject_def format_defs Let_def)

text \<open>
  Claim C8 fails as stated: a validly created project need not serialize, and then
  there is nothing to load. \<open>NewProject\<close> asks of the title only that it is not
  empty. For the title of the one byte \<open>0xFF\<close>, a description, a goal of 100000000
  and a decodable address it succeeds, and \<open>Serialize\<close> on the project it returns
  reports the encoder's error for a string that is not valid UTF-8.
\<close>

theorem C8_Project_roundtrip_counterexample:
  "[CHR 0xFF] \<noteq> [] \<and> ''Test Description'' \<noteq> [] \<and> (100000000 :: u64) > 0
   \<and> NewAddressFromString exLedger ''1NKNazRR5jKgGqELVHDK47JAZrqtAWWy5q''
        = Some ''1NKNazRR5jKgGqELVHDK47JAZrqtAWWy5q''
   \<and> p2pkhLock exLedger ''1NKNazRR5jKgGqELVHDK47JAZrqtAWWy5q'' = Some exScript
   \<and> NewProject exFormat exLedger 0 [CHR 0xFF] ''Test Description'' 100000000
        ''1NKNazRR5jKgGqELVHDK47JAZrqtAWWy5q'' = Inr exBadProject
   \<and> snd (Project_Serialize exFormat exBadProject) = Some MarshalFailed"
  by (simp add: ex_NewProject_bad) (simp add: exLedger_def exBadProject_def format_defs)

text \<open>
  Claim C8, amended. Let the wire format decode what it encodes without error. For a
  non-empty title and description, a goal above zero and an address that decodes to
  a locking script, \<open>NewProject\<close> succeeds with a project \<open>p\<close>; and whenever
  \<open>Serialize\<close> of \<open>p\<close> returns its bytes without error, \<open>LoadProject\<close> of those bytes
  succeeds with a project of the same identifier, title, description, goal amount
  and minimum pledge amount. The loaded goal amount is the sum of the amounts of
  the decoded outputs.
\<close>

theorem C8_Project_roundtrip:
  assumes "title \<noteq> []" "description \<noteq> []" "goal > 0"
    and "NewAddressFromString ledger address = Some addr"
    and "p2pkhLock ledger addr = Some lockingScript"
    and "\<forall>m data. marshalProject fmt m = (data, None) \<longrightarrow> unmarshalProject fmt data = Some m"
  shows "\<exists>p. NewProject fmt ledger now title description goal address = Inr p
           \<and> Title p = title \<and> Description p = description \<and> GoalAmount p = goal
           \<and> (\<forall>data. Project_Serialize fmt p = (data, None) \<longrightarrow>
                (\<exists>q d. LoadProject fmt data = Inr q
                   \<and> Project_ID q = Project_ID p
                   \<and> Title q = Title p
                   \<and> Description q = Description p
                   \<and> GoalAmount q = GoalAmount p
                   \<and> MinPledgeAmount q = MinPledgeAmount p
                   \<and> unmarshalProject fmt data = Some (project_pb q)
                   \<and> pb_Details (project_pb q) = Some d
                   \<and> GoalAmount q = sum_list (map pb_Amount (pb_Outputs d))))"
proof -
  define det where "det = \<lparr>pb_Network = ''mainnet'',
                             pb_Outputs = [\<lparr>pb_Amount = goal, pb_Script = lockingScript\<rparr>],
                             pb_Time = now, pb_Expires = None, pb_Memo = description\<rparr>"
  define proj where "proj = \<lparr>pb_Version = 1, pb_Details = Some det,
                            pb_Extra = Some \<lparr>pb_Title = title, pb_CoverImage = [],
                              pb_AuthKey = [], pb_MinPledgeAmount = 10000\<rparr>\<rparr>"
  define p where "p = \<lparr>project_pb = proj,
                       project_id = sha256Hex fmt (fst (marshalProject fmt proj)),
                       goalAmount = goal\<rparr>"
  from assms have "goal \<noteq> 0" by (simp add: word_neq_0_conv)
  with assms have new: "NewProject fmt ledger now title description goal address = Inr p"
    by (simp add: NewProject_def p_def proj_def det_def Project_calculateID_def
        Project_Serialize_def Let_def split_beta)
  have vals: "Title p = title" "Description p = description" "GoalAmount p = goal"
    by (simp_all add: p_def proj_def det_def Title_def Description_def GoalAmount_def)
  have d: "pb_Details (project_pb p) = Some det" by (simp add: p_def proj_def)
  have sum: "GoalAmount p = sum_list (map pb_Amount (pb_Outputs det))"
    by (simp add: p_def det_def GoalAmount_def)
  have reload: "\<exists>q d. LoadProject fmt data = Inr q
                   \<and> Project_ID q = Project_ID p
                   \<and> Title q = Title p
                   \<and> Description q = Description p
                   \<and> GoalAmount q = GoalAmount p
                   \<and> MinPledgeAmount q = MinPledgeAmount p
                   \<and> unmarshalProject fmt data = Some (project_pb q)
                   \<and> pb_Details (project_pb q) = Some d
                   \<and> GoalAmount q = sum_list (map pb_Amount (pb_Outputs d))"
    if ser: "Project_Serialize fmt p = (data, None)" for data
  proof -
    from ser have m: "marshalProject fmt proj = (data, None)"
      by (simp add: Project_Serialize_def p_def)
    with assms(6) have rt: "unmarshalProject fmt data = Some proj" by blast
    have load: "LoadProject fmt data = Inr p"
      using rt m by (simp add: LoadProject_def Project_Serialize_def p_def proj_def det_def
          Project_calculateID_def Let_def)
    from rt have "unmarshalProject fmt data = Some (project_pb p)" by (simp add: p_def)
    with load d sum show ?thesis by blast
  qed
  from new vals reload show ?thesis by blast
qed

lemma ex_roundtrip:
  "\<forall>m data. marshalProject exFormat m = (data, None) \<longrightarrow> unmarshalProject exFormat data = Some m"
  by (auto simp: exFormat_def)

lemma ex_decodes: "\<forall>m. unmarshalProject exFormat (fst (marshalProject exFormat m)) = Some m"
  by (simp add: exFormat_def)

lemma ex_Serialize_project:
  "Project_Serialize exFormat exProject = (Inl (project_pb exProject), None)"
  by (simp add: format_defs exProject_def)

text \<open>
  Claim C8, amended, at the example format and the project of the package's tests.
\<close>

theorem C8_Project_roundtrip_witness:
  "''Test Project'' \<noteq> [] \<and> ''Test Description'' \<noteq> [] \<and> (100000000 :: u64) > 0
   \<and> NewAddressFromString exLedger ''1NKNazRR5jKgGqELVHDK47JAZrqtAWWy5q''
        = Some ''1NKNazRR5jKgGqELVHDK47JAZrqtAWWy5q''
   \<and> p2pkhLock exLedger ''1NKNazRR5jKgGqELVHDK47JAZrqtAWWy5q'' = Some exScript
   \<and> (\<forall>m. unmarshalProject exFormat (fst (marshalProject exFormat m)) = Some m)
   \<and> NewProject exFormat exLedger 0 ''Test Project'' ''Test Description'' 100000000
        ''1NKNazRR5jKgGqELVHDK47JAZrqtAWWy5q'' = Inr exProject
   \<and> Project_Serialize exFormat exProject = (Inl (project_pb exProject), None)
   \<and> (\<exists>q. LoadProject exFormat (Inl (project_pb exProject)) = Inr q
         \<and> Project_ID q = Project_ID exProject \<and> Title q = ''Test Project''
         \<and> Description q = ''Test Description'' \<and> GoalAmount q = 100000000
         \<and> MinPledgeAmount q = MinPledgeAmount exProject)"
proof -
  have h: "''Test Project'' \<noteq> []" "''Test Description'' \<noteq> []" "(100000000 :: u64) > 0"
    "NewAddressFromString exLedger ''1NKNazRR5jKgGqELVHDK47JAZrqtAWWy5q''
        = Some ''1NKNazRR5jKgGqELVHDK47JAZrqtAWWy5q''"
    "p2pkhLock exLedger ''1NKNazRR5jKgGqELVHDK47JAZrqtAWWy5q'' = Some exScript"
    by (simp_all add: exLedger_def)
  from C8_Project_roundtrip [OF h ex_roundtrip, of 0]
  obtain p where p: "NewProject exFormat exLedger 0 ''Test Project'' ''Test Description''
        100000000 ''1NKNazRR5jKgGqELVHDK47JAZrqtAWWy5q'' = Inr p"
    "Title p = ''Test Project''" "Description p = ''Test Description''"
    "GoalAmount p = 100000000"
    and reload: "\<forall>data. Project_Serialize exFormat p = (data, None) \<longrightarrow>
                (\<exists>q d. LoadProject exFormat data = Inr q
                   \<and> Project_ID q = Project_ID p
                   \<and> Title q = Title p
                   \<and> Description q = Description p
                   \<and> GoalAmount q = GoalAmount p
                   \<and> MinPledgeAmount q = MinPledgeAmount p
                   \<and> unmarshalProject exFormat data = Some (project_pb q)
                   \<and> pb_Details (project_pb q) = Some d
                   \<and> GoalAmount q = sum_list (map pb_Amount (pb_Outputs d)))"
    by blast
  from p(1) have pe: "p = exProject" by (simp add: exProject_is_NewProject)
  from reload ex_Serialize_project p(2-4)
  have "\<exists>q. LoadProject exFormat (Inl (project_pb exProject)) = Inr q
         \<and> Project_ID q = Project_ID exProject \<and> Title q = ''Test Project''
         \<and> Description q = ''Test Description'' \<and> GoalAmount q = 100000000
         \<and> MinPledgeAmount q = MinPledgeAmount exProject"
    unfolding pe by metis
  with h ex_decodes exProject_is_NewProject ex_Serialize_project show ?thesis by blast
qed

subsection \<open>Binary64 rounding\<close>

text \<open>
  The error of one rounding: \<open>round53\<close> returns a significand and an exponent whose
  value is within \<open>2\<^sup>-\<^sup>5\<^sup>3\<close> of the exact quotient, relatively, and is the quotient
  itself for an integer below \<open>2\<^sup>5\<^sup>3\<close>.
\<close>

lemma rne_error:
  assumes "0 < d"
  shows "\<bar>real (roundNearestEven n d) - real n / real d\<bar> \<le> 1 / 2"
proof -
  define q r where "q = n div d" and "r = n mod d"
  have n: "real n = real q * real d + real r"
    unfolding q_def r_def by (metis div_mult_mod_eq of_nat_add of_nat_mult)
  have r: "r < d" unfolding r_def using assms by simp
  have quot: "real n / real d = real q + real r / real d"
    using assms by (simp add: n field_simps)
  consider "2 * r < d" | "2 * r > d" | "2 * r = d" by linarith
  then show ?thesis
  proof cases
    case 1
    then have "roundNearestEven n d = q"
      by (simp add: roundNearestEven_def q_def r_def Let_def)
    moreover from 1 assms have "real r / real d < 1 / 2" by (simp add: field_simps)
    ultimately show ?thesis by (simp add: quot)
  next
    case 2
    then have "roundNearestEven n d = q + 1"
      by (simp add: roundNearestEven_def q_def r_def Let_def)
    moreover from 2 assms have "real r / real d > 1 / 2" by (simp add: field_simps)
    moreover from r assms have "real r / real d < 1" by simp
    ultimately show ?thesis by (simp add: quot)
  next
    case 3
    then have res: "roundNearestEven n d = q \<or> roundNearestEven n d = q + 1"
      by (simp add: roundNearestEven_def q_def r_def Let_def)
    from 3 assms have "real r / real d = 1 / 2" by (simp add: field_simps)
    with quot have half: "real n / real d = real q + 1 / 2" by simp
    from res show ?thesis
    proof
      assume "roundNearestEven n d = q"
      then show ?thesis unfolding half by simp
    next
      assume "roundNearestEven n d = q + 1"
      then show ?thesis unfolding half by simp
    qed
  qed
qed

lemma scaled_quot:
  assumes "0 < d"
  shows "real (scaledNum n e) / real (scaledDen d e)
           = (real n / real d) * 2 powr (- real_of_int e)"
proof (cases "0 \<le> e")
  case True
  then have "2 powr real_of_int e = 2 ^ nat e"
    by (simp add: powr_realpow [symmetric])
  with True show ?thesis
    by (simp add: scaledNum_def scaledDen_def powr_minus field_simps)
next
  case False
  then have "2 powr (- real_of_int e) = 2 ^ nat (- e)"
    by (simp add: powr_realpow [symmetric])
  with False show ?thesis
    by (simp add: scaledNum_def scaledDen_def)
qed

lemma scaledDen_pos: "0 < d \<Longrightarrow> 0 < scaledDen d e"
  by (simp add: scaledDen_def)

lemma log_floorlog:
  assumes "0 < n"
  shows "real (floorlog 2 n) - 1 \<le> log 2 (real n) \<and> log 2 (real n) < real (floorlog 2 n)"
proof -
  have "0 \<le> log 2 (real n)" using assms by simp
  then have "0 \<le> \<lfloor>log 2 (real n)\<rfloor>" by simp
  then have "real (floorlog 2 n) = real_of_int \<lfloor>log 2 (real n)\<rfloor> + 1"
    using assms by (simp add: floorlog_def)
  then show ?thesis by linarith
qed

lemma scaled_test:
  assumes "0 < d"
  shows "scaledNum n k < scaledDen d k * 2 ^ 53
         \<longleftrightarrow> (real n / real d) * 2 powr (- real_of_int k) < 2 ^ 53"
proof -
  have pos: "0 < real (scaledDen d k)" using scaledDen_pos [OF assms] by simp
  have "scaledNum n k < scaledDen d k * 2 ^ 53
        \<longleftrightarrow> real (scaledNum n k) < real (scaledDen d k) * 2 ^ 53"
    by (metis of_nat_less_iff of_nat_mult of_nat_numeral of_nat_power)
  also have "\<dots> \<longleftrightarrow> real (scaledNum n k) / real (scaledDen d k) < 2 ^ 53"
    using pos by (simp add: field_simps)
  finally show ?thesis by (simp add: scaled_quot [OF assms])
qed

lemma round53_scaled:
  assumes "0 < n" "0 < d" "round53 n d = (m, e)"
  shows "2 ^ 52 \<le> (real n / real d) * 2 powr (- real_of_int e)
         \<and> (real n / real d) * 2 powr (- real_of_int e) < 2 ^ 53
         \<and> m = roundNearestEven (scaledNum n e) (scaledDen d e)"
proof -
  define k where "k = int (floorlog 2 n) - int (floorlog 2 d) - 53"
  define x where "x = real n / real d"
  define L where "L = log 2 (x * 2 powr (- real_of_int k))"
  have xpos: "0 < x" using assms by (simp add: x_def)
  have "log 2 x = log 2 (real n) - log 2 (real d)"
    using assms by (simp add: x_def log_divide)
  then have Leq: "L = log 2 (real n) - log 2 (real d) - real_of_int k"
    using xpos by (simp add: L_def log_mult)
  have "real_of_int k = real (floorlog 2 n) - real (floorlog 2 d) - 53"
    by (simp add: k_def)
  with Leq log_floorlog [OF assms(1)] log_floorlog [OF assms(2)]
  have Lb: "52 < L" "L < 54" by linarith+
  have ypos: "0 < x * 2 powr (- real_of_int k)" using xpos by simp
  then have y: "x * 2 powr (- real_of_int k) = 2 powr L"
    by (simp add: L_def)
  have lo: "2 ^ 52 < x * 2 powr (- real_of_int k)"
  proof -
    have a: "2 powr real (52::nat) = (2::real) ^ 52" by (rule powr_realpow) simp
    have "2 powr real (52::nat) < (2::real) powr L"
      by (rule powr_less_mono) (use Lb in simp_all)
    then show ?thesis unfolding y a .
  qed
  have hi: "x * 2 powr (- real_of_int k) < 2 ^ 54"
  proof -
    have a: "2 powr real (54::nat) = (2::real) ^ 54" by (rule powr_realpow) simp
    have "(2::real) powr L < 2 powr real (54::nat)"
      by (rule powr_less_mono) (use Lb in simp_all)
    then show ?thesis unfolding y a .
  qed
  have e: "e = (if scaledNum n k < scaledDen d k * 2 ^ 53 then k else k + 1)"
    and m: "m = roundNearestEven (scaledNum n e) (scaledDen d e)"
    using assms(3) by (auto simp: round53_def Let_def k_def)
  show ?thesis
  proof (cases "scaledNum n k < scaledDen d k * 2 ^ 53")
    case True
    with e have "e = k" by simp
    with True lo m show ?thesis
      using scaled_test [OF assms(2), of n k] by (simp add: x_def)
  next
    case False
    with e have ek: "e = k + 1" by simp
    from False have ge: "2 ^ 53 \<le> x * 2 powr (- real_of_int k)"
      using scaled_test [OF assms(2), of n k] by (simp add: x_def)
    have "- real_of_int e = - real_of_int k + (- 1)" by (simp add: ek)
    then have "(2::real) powr (- real_of_int e) = 2 powr (- real_of_int k) * 2 powr (- 1)"
      by (simp only: powr_add)
    moreover have "(2::real) powr (- 1) = 1 / 2"
      by (simp add: powr_minus_divide)
    ultimately have "2 powr (- real_of_int e) = 2 powr (- real_of_int k) / 2"
      by simp
    then have eq: "x * 2 powr (- real_of_int e) = x * 2 powr (- real_of_int k) / 2"
      by simp
    from ge hi have "2 ^ 52 \<le> x * 2 powr (- real_of_int k) / 2"
      "x * 2 powr (- real_of_int k) / 2 < 2 ^ 53"
      by simp_all
    then have "2 ^ 52 \<le> x * 2 powr (- real_of_int e)"
      "x * 2 powr (- real_of_int e) < 2 ^ 53"
      unfolding eq by blast+
    with m show ?thesis unfolding x_def by blast
  qed
qed

lemma round53_error:
  assumes "0 < n" "0 < d" "round53 n d = (m, e)"
  shows "\<bar>real m * 2 powr real_of_int e - real n / real d\<bar> \<le> (real n / real d) / 2 ^ 53
         \<and> 0 < m"
proof -
  define x where "x = real n / real d"
  define y where "y = x * 2 powr (- real_of_int e)"
  note s = round53_scaled [OF assms]
  from s have ylo: "2 ^ 52 \<le> y" by (simp add: y_def x_def)
  from s have m: "m = roundNearestEven (scaledNum n e) (scaledDen d e)" by simp
  have "\<bar>real m - real (scaledNum n e) / real (scaledDen d e)\<bar> \<le> 1 / 2"
    unfolding m by (rule rne_error [OF scaledDen_pos [OF assms(2)]])
  then have close: "\<bar>real m - y\<bar> \<le> 1 / 2"
    by (simp add: scaled_quot [OF assms(2)] y_def x_def)
  have p: "0 < (2::real) powr real_of_int e" by simp
  have xy: "x = y * 2 powr real_of_int e"
    by (simp add: y_def powr_minus field_simps)
  have "real m * 2 powr real_of_int e - x = (real m - y) * 2 powr real_of_int e"
    by (simp add: xy algebra_simps)
  then have "\<bar>real m * 2 powr real_of_int e - x\<bar> = \<bar>real m - y\<bar> * 2 powr real_of_int e"
    by (simp only: abs_mult) simp
  also have "\<dots> \<le> (1 / 2) * 2 powr real_of_int e"
    using close p by (simp add: mult_right_mono)
  also have "\<dots> \<le> (y / 2 ^ 53) * 2 powr real_of_int e"
    using ylo p by (simp add: mult_right_mono)
  also have "\<dots> = x / 2 ^ 53" by (simp add: xy)
  finally have err: "\<bar>real m * 2 powr real_of_int e - x\<bar> \<le> x / 2 ^ 53" .
  have "(1::real) \<le> 2 ^ 52" by simp
  with close ylo have "0 < real m" by linarith
  with err show ?thesis by (simp add: x_def)
qed

lemma round53_exact:
  assumes "0 < n" "n < 2 ^ 53" "round53 n 1 = (m, e)"
  shows "real m * 2 powr real_of_int e = real n \<and> 0 < m"
proof -
  from round53_scaled [OF assms(1) _ assms(3)]
  have lo: "2 ^ 52 \<le> real n * 2 powr (- real_of_int e)"
    and m: "m = roundNearestEven (scaledNum n e) (scaledDen 1 e)" by simp_all
  have "e \<le> 0"
  proof (rule ccontr)
    assume "\<not> e \<le> 0"
    then have "1 \<le> real_of_int e" by simp
    then have "(2::real) powr (- real_of_int e) \<le> 2 powr (- 1)"
      by (intro powr_mono) simp_all
    moreover have "(2::real) powr (- 1) = 1 / 2"
      by (simp add: powr_minus_divide)
    ultimately have "(2::real) powr (- real_of_int e) \<le> 1 / 2" by simp
    then have "real n * 2 powr (- real_of_int e) \<le> real n * (1 / 2)"
      by (intro mult_left_mono) simp_all
    moreover from assms(2) have "real n < 2 ^ 53"
      by (metis of_nat_less_iff of_nat_numeral of_nat_power)
    ultimately show False using lo by simp
  qed
  then have den: "scaledDen 1 e = 1" by (simp add: scaledDen_def)
  have "roundNearestEven k 1 = k" for k by (simp add: roundNearestEven_def)
  with m den have mm: "m = scaledNum n e" by simp
  have "real (scaledNum n e) = real n * 2 powr (- real_of_int e)"
    using scaled_quot [of 1 n e] den by simp
  with mm have "real m * 2 powr real_of_int e = real n"
    by (simp add: powr_minus field_simps)
  moreover from mm assms(1) have "0 < m" by (simp add: scaledNum_def)
  ultimately show ?thesis by simp
qed

lemma f64_of_u64_exact:
  assumes "x \<noteq> 0" "unat x < 2 ^ 53"
  shows "\<exists>m e. f64_of_u64 x = Finite m e \<and> 0 < m \<and> real m * 2 powr real_of_int e = real (unat x)"
proof -
  obtain m e where r: "round53 (unat x) 1 = (m, e)" by (cases "round53 (unat x) 1")
  from assms(1) have pos: "0 < unat x" by (simp add: unat_gt_0)
  from round53_exact [OF pos assms(2) r] r assms(1) show ?thesis
    by (simp add: f64_of_u64_def)
qed

lemma rel_error_scale:
  fixes u v c :: real
  assumes "\<bar>u - v\<bar> \<le> v / 2 ^ 53" "0 < c"
  shows "\<bar>u * c - v * c\<bar> \<le> (v * c) / 2 ^ 53"
proof -
  have "u * c - v * c = (u - v) * c" by (simp add: algebra_simps)
  then have "\<bar>u * c - v * c\<bar> = \<bar>u - v\<bar> * c"
    using assms(2) by (simp only: abs_mult) 
  also have "\<dots> \<le> (v / 2 ^ 53) * c"
    using assms by (simp add: mult_right_mono)
  finally show ?thesis by simp
qed

lemma f64_div_error:
  assumes "0 < ma" "0 < mg"
  shows "\<exists>m e. f64_div (Finite ma ea) (Finite mg eg) = Finite m e \<and> 0 < m
           \<and> \<bar>real m * 2 powr real_of_int e
                - (real ma * 2 powr real_of_int ea) / (real mg * 2 powr real_of_int eg)\<bar>
               \<le> ((real ma * 2 powr real_of_int ea) / (real mg * 2 powr real_of_int eg)) / 2 ^ 53"
proof -
  obtain m e where r: "round53 ma mg = (m, e)" by (cases "round53 ma mg")
  define c :: real where "c = 2 powr (real_of_int ea - real_of_int eg)"
  have c: "0 < c" by (simp add: c_def)
  from round53_error [OF assms r]
  have err: "\<bar>real m * 2 powr real_of_int e - real ma / real mg\<bar> \<le> (real ma / real mg) / 2 ^ 53"
    and m: "0 < m" by simp_all
  have res: "f64_div (Finite ma ea) (Finite mg eg) = Finite m (e + ea - eg)"
    using assms r by simp
  have 1: "real m * 2 powr real_of_int (e + ea - eg) = (real m * 2 powr real_of_int e) * c"
    by (simp add: c_def powr_add [symmetric] algebra_simps)
  have 2: "(real ma * 2 powr real_of_int ea) / (real mg * 2 powr real_of_int eg)
             = (real ma / real mg) * c"
    by (simp add: c_def powr_diff)
  from rel_error_scale [OF err c]
  have "\<bar>real m * 2 powr real_of_int (e + ea - eg)
                - (real ma * 2 powr real_of_int ea) / (real mg * 2 powr real_of_int eg)\<bar>
               \<le> ((real ma * 2 powr real_of_int ea) / (real mg * 2 powr real_of_int eg)) / 2 ^ 53"
    by (simp only: 1 2)
  with res m show ?thesis by blast
qed

lemma f64_mul_error:
  assumes "0 < mp" "0 < mr"
  shows "\<exists>m e. f64_mul (Finite mp ep) (Finite mr er) = Finite m e
           \<and> \<bar>real m * 2 powr real_of_int e
                - (real mp * 2 powr real_of_int ep) * (real mr * 2 powr real_of_int er)\<bar>
               \<le> ((real mp * 2 powr real_of_int ep) * (real mr * 2 powr real_of_int er)) / 2 ^ 53"
proof -
  obtain m e where r: "round53 (mp * mr) 1 = (m, e)" by (cases "round53 (mp * mr) 1")
  define c :: real where "c = 2 powr (real_of_int ep + real_of_int er)"
  have c: "0 < c" by (simp add: c_def)
  from assms have pos: "0 < mp * mr" by simp
  from round53_error [OF pos _ r]
  have err: "\<bar>real m * 2 powr real_of_int e - real (mp * mr)\<bar> \<le> real (mp * mr) / 2 ^ 53"
    by simp
  have res: "f64_mul (Finite mp ep) (Finite mr er) = Finite m (e + ep + er)"
    using assms r by simp
  have 1: "real m * 2 powr real_of_int (e + ep + er) = (real m * 2 powr real_of_int e) * c"
    by (simp add: c_def powr_add [symmetric] algebra_simps)
  have 2: "(real mp * 2 powr real_of_int ep) * (real mr * 2 powr real_of_int er)
             = real (mp * mr) * c"
    by (simp add: c_def powr_add)
  from rel_error_scale [OF err c]
  have "\<bar>real m * 2 powr real_of_int (e + ep + er)
                - (real mp * 2 powr real_of_int ep) * (real mr * 2 powr real_of_int er)\<bar>
               \<le> ((real mp * 2 powr real_of_int ep) * (real mr * 2 powr real_of_int er)) / 2 ^ 53"
    by (simp only: 1 2)
  with res show ?thesis by blast
qed

lemma f64_to_u64_floor:
  assumes "real m * 2 powr real_of_int e < 2 ^ 64"
  shows "int (unat (f64_to_u64 conv (Finite m e))) = \<lfloor>real m * 2 powr real_of_int e\<rfloor>"
proof -
  define v where "v = (if e \<ge> 0 then m * 2 ^ nat e else m div 2 ^ nat (- e))"
  have fl: "int v = \<lfloor>real m * 2 powr real_of_int e\<rfloor>"
  proof (cases "0 \<le> e")
    case True
    then have "2 powr real_of_int e = 2 ^ nat e"
      by (simp add: powr_realpow [symmetric])
    then have "real m * 2 powr real_of_int e = real (m * 2 ^ nat e)" by simp
    then have "\<lfloor>real m * 2 powr real_of_int e\<rfloor> = int (m * 2 ^ nat e)"
      by (simp only: floor_of_nat)
    with True show ?thesis by (simp add: v_def)
  next
    case False
    then have "2 powr (- real_of_int e) = 2 ^ nat (- e)"
      by (simp add: powr_realpow [symmetric])
    then have "real m * 2 powr real_of_int e = real m / real (2 ^ nat (- e))"
      by (simp add: powr_minus field_simps)
    then have "\<lfloor>real m * 2 powr real_of_int e\<rfloor> = int (m div 2 ^ nat (- e))"
      by (simp only: floor_divide_of_nat_eq)
    with False show ?thesis by (simp add: v_def)
  qed
  have "real v \<le> real m * 2 powr real_of_int e"
    using fl by (metis of_int_floor_le of_int_of_nat_eq)
  with assms have "real v < 2 ^ 64" by simp
  then have small: "v < 2 ^ 64"
    by (metis of_nat_less_iff of_nat_numeral of_nat_power)
  then have "f64_to_u64 conv (Finite m e) = of_nat v"
    by (simp add: f64_to_u64_def v_def Let_def)
  moreover from small have "unat (of_nat v :: u64) = v"
    by (simp add: unat_of_nat)
  ultimately show ?thesis using fl by simp
qed

text \<open>
  Two roundings, of the ratio and of the product, and the truncation: below \<open>2\<^sup>5\<^sup>1\<close>
  the scaled amount is within one of the exact share.
\<close>

lemma scale_bound:
  fixes p a g :: u64
  assumes "a \<noteq> 0" "g \<noteq> 0" "unat a < 2 ^ 53" "unat g < 2 ^ 53" "unat p < 2 ^ 53"
    and "unat p * unat a < 2 ^ 51 * unat g"
  shows "exactShare p a g
           \<le> unat (f64_to_u64 conv (f64_mul (f64_of_u64 p) (f64_div (f64_of_u64 a) (f64_of_u64 g)))) + 1
         \<and> unat (f64_to_u64 conv (f64_mul (f64_of_u64 p) (f64_div (f64_of_u64 a) (f64_of_u64 g))))
           \<le> exactShare p a g + 1"
proof -
  define A G P where "A = real (unat a)" and "G = real (unat g)" and "P = real (unat p)"
  define u :: real where "u = 1 / 2 ^ 53"
  from f64_of_u64_exact [OF assms(1,3)] obtain ma ea where
    fa: "f64_of_u64 a = Finite ma ea" "0 < ma" "real ma * 2 powr real_of_int ea = A"
    by (auto simp: A_def)
  from f64_of_u64_exact [OF assms(2,4)] obtain mg eg where
    fg: "f64_of_u64 g = Finite mg eg" "0 < mg" "real mg * 2 powr real_of_int eg = G"
    by (auto simp: G_def)
  from f64_div_error [OF fa(2) fg(2), of ea eg] obtain mr er where
    fr: "f64_div (f64_of_u64 a) (f64_of_u64 g) = Finite mr er" "0 < mr"
    and rerr: "\<bar>real mr * 2 powr real_of_int er - A / G\<bar> \<le> (A / G) / 2 ^ 53"
    unfolding fa(1) fg(1) fa(3) fg(3) by blast
  define r where "r = real mr * 2 powr real_of_int er"
  have "0 < unat a" "0 < unat g" using assms(1,2) by (simp_all add: unat_gt_0)
  then have Apos: "0 < A" and Gpos: "0 < G"
    unfolding A_def G_def by (simp_all only: of_nat_0_less_iff)
  have Pnn: "0 \<le> P" unfolding P_def by (rule of_nat_0_le_iff)
  define x where "x = P * A / G"
  have xnn: "0 \<le> x" using Apos Gpos Pnn by (simp add: x_def)
  have "real (unat p * unat a) < real (2 ^ 51 * unat g)"
    using assms(6) by (simp only: of_nat_less_iff)
  then have "P * A < 2 ^ 51 * G" by (simp add: P_def A_def G_def)
  then have xlt: "x < 2 ^ 51" using Gpos by (simp add: x_def field_simps)
  have floor_x: "\<lfloor>x\<rfloor> = int (exactShare p a g)"
  proof -
    have "x = real (unat p * unat a) / real (unat g)"
      by (simp add: x_def P_def A_def G_def)
    then show ?thesis by (simp only: floor_divide_of_nat_eq exactShare_def)
  qed
  define out where
    "out = unat (f64_to_u64 conv (f64_mul (f64_of_u64 p) (f64_div (f64_of_u64 a) (f64_of_u64 g))))"
  have near: "\<lfloor>x\<rfloor> - 1 \<le> int out \<and> int out \<le> \<lfloor>x\<rfloor> + 1"
  proof (cases "p = 0")
    case True
    then have p0: "f64_of_u64 p = Finite 0 0" by (simp add: f64_of_u64_def)
    have "f64_mul (f64_of_u64 p) (f64_div (f64_of_u64 a) (f64_of_u64 g)) = Finite 0 0"
      unfolding p0 fr(1) by simp
    then have "int out = 0"
      using f64_to_u64_floor [of 0 0 conv] by (simp add: out_def)
    moreover from True have "x = 0" by (simp add: x_def P_def)
    ultimately show ?thesis by simp
  next
    case False
    from f64_of_u64_exact [OF False assms(5)] obtain mp ep where
      fp: "f64_of_u64 p = Finite mp ep" "0 < mp" "real mp * 2 powr real_of_int ep = P"
      by (auto simp: P_def)
    from f64_mul_error [OF fp(2) fr(2), of ep er] obtain m e where
      fz: "f64_mul (f64_of_u64 p) (f64_div (f64_of_u64 a) (f64_of_u64 g)) = Finite m e"
      and zerr: "\<bar>real m * 2 powr real_of_int e - P * r\<bar> \<le> (P * r) / 2 ^ 53"
      unfolding fp(1) fr(1) fp(3) r_def by blast
    define z where "z = real m * 2 powr real_of_int e"
    have q: "0 \<le> A / G" using Apos Gpos by simp
    from rerr have r1: "\<bar>r - A / G\<bar> \<le> (A / G) * u" by (simp add: r_def u_def)
    then have "r - A / G \<le> (A / G) * u" by (simp add: abs_le_iff)
    then have "r \<le> A / G + (A / G) * u" by linarith
    then have r2: "r \<le> (A / G) * (1 + u)" by (simp only: distrib_left mult_1_right)
    have "P * r - x = P * (r - A / G)" by (simp add: x_def algebra_simps)
    then have "\<bar>P * r - x\<bar> = P * \<bar>r - A / G\<bar>"
      using Pnn by (simp only: abs_mult abs_of_nonneg)
    also have "\<dots> \<le> P * ((A / G) * u)" using r1 Pnn by (rule mult_left_mono)
    finally have e1: "\<bar>P * r - x\<bar> \<le> x * u" by (simp add: x_def)
    have "P * r \<le> P * ((A / G) * (1 + u))" using r2 Pnn by (rule mult_left_mono)
    then have pr: "P * r \<le> x * (1 + u)" by (simp add: x_def)
    have upos: "0 \<le> u" by (simp add: u_def)
    from zerr have "\<bar>z - P * r\<bar> \<le> (P * r) * u" by (simp add: z_def u_def)
    also have "\<dots> \<le> (x * (1 + u)) * u" using pr upos by (rule mult_right_mono)
    finally have e2: "\<bar>z - P * r\<bar> \<le> x * (1 + u) * u" .
    have "\<bar>z - x\<bar> \<le> \<bar>z - P * r\<bar> + \<bar>P * r - x\<bar>" by simp
    with e1 e2 have "\<bar>z - x\<bar> \<le> x * (1 + u) * u + x * u" by linarith
    also have "\<dots> = x * ((2 + u) * u)" by (simp add: algebra_simps)
    also have "\<dots> \<le> 2 ^ 51 * ((2 + u) * u)"
      using xlt upos by (intro mult_right_mono) simp_all
    also have "\<dots> < 1" by (simp add: u_def)
    finally have close: "\<bar>z - x\<bar> < 1" .
    then have "z < 2 ^ 64" using xlt by (simp add: abs_less_iff)
    from f64_to_u64_floor [OF this [unfolded z_def], of conv]
    have o: "int out = \<lfloor>z\<rfloor>" by (simp add: out_def fz z_def)
    from close have "x - 1 \<le> z" "z \<le> x + 1" by (simp_all add: abs_less_iff)
    then have "\<lfloor>x - 1\<rfloor> \<le> \<lfloor>z\<rfloor>" "\<lfloor>z\<rfloor> \<le> \<lfloor>x + 1\<rfloor>" by (simp_all only: floor_mono)
    then show ?thesis by (simp add: o)
  qed
  then show ?thesis unfolding floor_x out_def [symmetric] by linarith
qed

subsection \<open>The outputs of a new pledge\<close>

lemma ex_NewPledge12215:
  "NewPledge exFormat (\<lambda>f. 0) 0 exProject 12215 [exUTXO 1 50000] = Inr exPledge12215"
  by (simp add: NewPledge_def MinPledgeAmount_def AddInputsFromUTXOs_def NewTransaction_def
      Project_Outputs_def GoalAmount_def Project_ID_def pledgeOutput_def pbInput_def
      inputFromUTXO_def AddOutput_def Pledge_calculateID_def Pledge_Serialize_def
      exFormat_def exProject_def exUTXO_def exPledge12215_def exScript_def
      float_defs floorlog_Suc_0 Let_def)

text \<open>
  Claim C3 fails as stated: the output amounts are computed with a floating-point
  ratio, not with an exact multiplication and division, and the result is not
  always \<open>floor (p * a / g)\<close>. For a pledge of 12215 against the example project (one
  payout output of 100000000, goal 100000000) the exact share is 12215 and the
  output of the pledge carries 12214.
\<close>

theorem C3_NewPledge_outputs_counterexample:
  "NewPledge exFormat (\<lambda>f. 0) 0 exProject 12215 [exUTXO 1 50000] = Inr exPledge12215
   \<and> map Satoshis (payoutOutputs exProject) = [100000000]
   \<and> GoalAmount exProject = 100000000
   \<and> exactShare 100000000 12215 100000000 = 12215
   \<and> map (\<lambda>out. unat (Satoshis out)) (case tx exPledge12215 of Some t \<Rightarrow> Outputs t | None \<Rightarrow> [])
       = [12214]
   \<and> (12214 :: nat) \<noteq> exactShare 100000000 12215 100000000"
  by (simp add: ex_NewPledge12215)
     (simp add: exPledge12215_def exProject_def payoutOutputs_def Project_Outputs_def
        GoalAmount_def exactShare_def)

text \<open>
  Claim C3, amended. For every pledge \<open>NewPledge\<close> builds with amount \<open>a\<close> against a
  project with goal \<open>g\<close>, the outputs are the payout outputs in order, each with
  its locking script and with the amount \<open>uint64(float64(p) * (float64(a) /
  float64(g)))\<close> for the payout amount \<open>p\<close>: a binary64 ratio, a binary64 product,
  and a truncation. When \<open>g\<close> is not zero, \<open>a\<close>, \<open>g\<close> and \<open>p\<close> are below \<open>2\<^sup>5\<^sup>3\<close> and
  \<open>p * a / g\<close> is below \<open>2\<^sup>5\<^sup>1\<close>, that amount differs from \<open>floor (p * a / g)\<close> by at
  most one.
\<close>

theorem C3_NewPledge_outputs_amended:
  assumes "NewPledge fmt conv now proj amt utxos = Inr p"
  shows "\<exists>t. tx p = Some t
     \<and> Outputs t = map (pledgeOutput conv
                          (f64_div (f64_of_u64 amt) (f64_of_u64 (GoalAmount proj))))
                      (payoutOutputs proj)
     \<and> (\<forall>out \<in> set (payoutOutputs proj).
          LockingScript (pledgeOutput conv
              (f64_div (f64_of_u64 amt) (f64_of_u64 (GoalAmount proj))) out) = LockingScript out
        \<and> Satoshis (pledgeOutput conv
              (f64_div (f64_of_u64 amt) (f64_of_u64 (GoalAmount proj))) out)
            = f64_to_u64 conv (f64_mul (f64_of_u64 (Satoshis out))
                (f64_div (f64_of_u64 amt) (f64_of_u64 (GoalAmount proj))))
        \<and> (GoalAmount proj \<noteq> 0 \<and> unat amt < 2 ^ 53 \<and> unat (GoalAmount proj) < 2 ^ 53
             \<and> unat (Satoshis out) < 2 ^ 53
             \<and> unat (Satoshis out) * unat amt < 2 ^ 51 * unat (GoalAmount proj)
            \<longrightarrow> exactShare (Satoshis out) amt (GoalAmount proj)
                  \<le> unat (Satoshis (pledgeOutput conv
                        (f64_div (f64_of_u64 amt) (f64_of_u64 (GoalAmount proj))) out)) + 1
                \<and> unat (Satoshis (pledgeOutput conv
                        (f64_div (f64_of_u64 amt) (f64_of_u64 (GoalAmount proj))) out))
                  \<le> exactShare (Satoshis out) amt (GoalAmount proj) + 1))"
proof -
  note d = NewPledge_Inr_D [OF assms]
  from d have "\<not> amt < MinPledgeAmount proj" by simp
  then have a: "amt \<noteq> 0" using MinPledgeAmount_pos [of proj] by (auto simp: not_less)
  have bound: "exactShare (Satoshis out) amt (GoalAmount proj)
                  \<le> unat (Satoshis (pledgeOutput conv
                        (f64_div (f64_of_u64 amt) (f64_of_u64 (GoalAmount proj))) out)) + 1
                \<and> unat (Satoshis (pledgeOutput conv
                        (f64_div (f64_of_u64 amt) (f64_of_u64 (GoalAmount proj))) out))
                  \<le> exactShare (Satoshis out) amt (GoalAmount proj) + 1"
    if "GoalAmount proj \<noteq> 0" "unat amt < 2 ^ 53" "unat (GoalAmount proj) < 2 ^ 53"
      "unat (Satoshis out) < 2 ^ 53"
      "unat (Satoshis out) * unat amt < 2 ^ 51 * unat (GoalAmount proj)" for out
    using scale_bound [OF a that(1) that(2) that(3) that(4) that(5), of conv]
    by (simp add: pledgeOutput_def)
  from d bound show ?thesis by (simp add: pledgeOutput_def)
qed

text \<open>
  Claim C3, amended, at the example: the pledge of 12215 meets the bounds, and its
  output is within one of the exact share.
\<close>

theorem C3_NewPledge_outputs_amended_witness:
  "NewPledge exFormat (\<lambda>f. 0) 0 exProject 12215 [exUTXO 1 50000] = Inr exPledge12215
   \<and> payoutOutputs exProject = [\<lparr>Satoshis = 100000000, LockingScript = exScript\<rparr>]
   \<and> GoalAmount exProject \<noteq> 0 \<and> unat (12215 :: u64) < 2 ^ 53
   \<and> unat (GoalAmount exProject) < 2 ^ 53 \<and> unat (100000000 :: u64) < 2 ^ 53
   \<and> unat (100000000 :: u64) * unat (12215 :: u64) < 2 ^ 51 * unat (GoalAmount exProject)
   \<and> exactShare 100000000 12215 (GoalAmount exProject)
        \<le> unat (Satoshis (pledgeOutput (\<lambda>f. 0)
              (f64_div (f64_of_u64 12215) (f64_of_u64 (GoalAmount exProject)))
              \<lparr>Satoshis = 100000000, LockingScript = exScript\<rparr>)) + 1
   \<and> unat (Satoshis (pledgeOutput (\<lambda>f. 0)
              (f64_div (f64_of_u64 12215) (f64_of_u64 (GoalAmount exProject)))
              \<lparr>Satoshis = 100000000, LockingScript = exScript\<rparr>))
        \<le> exactShare 100000000 12215 (GoalAmount exProject) + 1"
proof -
  have po: "payoutOutputs exProject = [\<lparr>Satoshis = 100000000, LockingScript = exScript\<rparr>]"
    by (simp add: payoutOutputs_def Project_Outputs_def exProject_def)
  have g: "GoalAmount exProject = 100000000" by (simp add: GoalAmount_def exProject_def)
  have h: "GoalAmount exProject \<noteq> 0" "unat (12215 :: u64) < 2 ^ 53"
    "unat (GoalAmount exProject) < 2 ^ 53" "unat (100000000 :: u64) < 2 ^ 53"
    "unat (100000000 :: u64) * unat (12215 :: u64) < 2 ^ 51 * unat (GoalAmount exProject)"
    by (simp_all add: g)
  from C3_NewPledge_outputs_amended [OF ex_NewPledge12215] po
  have "GoalAmount exProject \<noteq> 0 \<and> unat (12215 :: u64) < 2 ^ 53
          \<and> unat (GoalAmount exProject) < 2 ^ 53 \<and> unat (100000000 :: u64) < 2 ^ 53
          \<and> unat (100000000 :: u64) * unat (12215 :: u64) < 2 ^ 51 * unat (GoalAmount exProject)
        \<longrightarrow> exactShare 100000000 12215 (GoalAmount exProject)
        \<le> unat (Satoshis (pledgeOutput (\<lambda>f. 0)
              (f64_div (f64_of_u64 12215) (f64_of_u64 (GoalAmount exProject)))
              \<lparr>Satoshis = 100000000, LockingScript = exScript\<rparr>)) + 1
          \<and> unat (Satoshis (pledgeOutput (\<lambda>f. 0)
              (f64_div (f64_of_u64 12215) (f64_of_u64 (GoalAmount exProject)))
              \<lparr>Satoshis = 100000000, LockingScript = exScript\<rparr>))
        \<le> exactShare 100000000 12215 (GoalAmount exProject) + 1"
    by auto
  with h po ex_NewPledge12215 show ?thesis by blast
qed

end
